theory Spec2Isabelle
  imports Main "HOL-Library.Sublist"
begin

section \<open>JavaScript values used by the rate limiter\<close>

text \<open>
  The quantities of the rate limiter are JavaScript numbers. Every number that occurs is
  either an integer (a header value read by \<open>parseInt\<close>, a clock reading in milliseconds,
  a configured threshold) or \<open>NaN\<close> (what \<open>parseInt\<close> returns on a string without a
  leading number). Integers are kept exact; the rounding of integers beyond \<open>2^53\<close> is not
  part of the model. Arithmetic with \<open>NaN\<close> gives \<open>NaN\<close> and every comparison with
  \<open>NaN\<close> is false, as in the language.
\<close>

datatype jsnum = Num int | NaN

fun jsAdd :: "jsnum \<Rightarrow> jsnum \<Rightarrow> jsnum" where
  "jsAdd (Num a) (Num b) = Num (a + b)"
| "jsAdd _ _ = NaN"

fun jsSub :: "jsnum \<Rightarrow> jsnum \<Rightarrow> jsnum" where
  "jsSub (Num a) (Num b) = Num (a - b)"
| "jsSub _ _ = NaN"

fun jsMul :: "jsnum \<Rightarrow> jsnum \<Rightarrow> jsnum" where
  "jsMul (Num a) (Num b) = Num (a * b)"
| "jsMul _ _ = NaN"

fun jsGt :: "jsnum \<Rightarrow> jsnum \<Rightarrow> bool" where
  "jsGt (Num a) (Num b) = (a > b)"
| "jsGt _ _ = False"

fun jsLe :: "jsnum \<Rightarrow> jsnum \<Rightarrow> bool" where
  "jsLe (Num a) (Num b) = (a \<le> b)"
| "jsLe _ _ = False"

text \<open>
  \<open>parseInt(s, 10)\<close>: leading white space is skipped, one sign is read, then the longest
  run of decimal digits; no digit gives \<open>NaN\<close>. Characters are bytes, so white space is
  the ASCII white space and the no-break space.
\<close>

definition isWhiteSpace :: "char \<Rightarrow> bool" where
  "isWhiteSpace c = (of_char c \<in> {9, 10, 11, 12, 13, 32, 160 :: nat})"

definition isDigit :: "char \<Rightarrow> bool" where
  "isDigit c = (48 \<le> (of_char c :: nat) \<and> (of_char c :: nat) \<le> 57)"

definition digitsValue :: "string \<Rightarrow> int" where
  "digitsValue ds = foldl (\<lambda>acc c. acc * 10 + (int (of_char c) - 48)) 0 ds"

definition parseInt :: "string \<Rightarrow> jsnum" where
  "parseInt s =
     (let t = dropWhile isWhiteSpace s;
          sign = (case t of c # _ \<Rightarrow> (if c = CHR ''-'' then - 1 else 1) | [] \<Rightarrow> (1::int));
          u = (case t of c # r \<Rightarrow> (if c = CHR ''-'' \<or> c = CHR ''+'' then r else t) | [] \<Rightarrow> t);
          ds = takeWhile isDigit u
      in if ds = [] then NaN else Num (sign * digitsValue ds))"

text \<open>A string is truthy unless it is empty; \<open>undefined\<close> is \<open>None\<close>.\<close>

fun truthy :: "string option \<Rightarrow> bool" where
  "truthy None = False"
| "truthy (Some s) = (s \<noteq> [])"

section \<open>Standardized errors\<close>

datatype ErrorCategoryType =
  CATEGORY_VALIDATION | CATEGORY_AUTHENTICATION | CATEGORY_GITHUB_API
  | CATEGORY_SYSTEM | CATEGORY_UNKNOWN

datatype ErrorSeverityLevel =
  SEVERITY_INFO | SEVERITY_WARN | SEVERITY_ERROR | SEVERITY_FATAL

text \<open>The timestamp and the open context map of the error object are left out.\<close>

record StandardizedApplicationErrorObject =
  errorMessage :: string
  errorCode :: string
  errorCategory :: ErrorCategoryType
  errorSeverity :: ErrorSeverityLevel

definition createStandardizedError ::
  "string \<Rightarrow> string \<Rightarrow> ErrorCategoryType \<Rightarrow> ErrorSeverityLevel
    \<Rightarrow> StandardizedApplicationErrorObject" where
  "createStandardizedError message code category severity =
     \<lparr> errorMessage = message, errorCode = code,
       errorCategory = category, errorSeverity = severity \<rparr>"

text \<open>The error object that \<open>createGithubApiError\<close> builds for a message.\<close>

definition githubApiErrorObject :: "string \<Rightarrow> StandardizedApplicationErrorObject" where
  "githubApiErrorObject message =
     createStandardizedError message ''GITHUB_API_ERROR'' CATEGORY_GITHUB_API SEVERITY_ERROR"

section \<open>Thrown values\<close>

text \<open>
  A value that is thrown, and caught by the \<open>catch\<close> clause of the executor, is one of:
  \<^item> an object with a \<open>status\<close> or a \<open>message\<close> property (what \<open>isGitHubApiError\<close>
    accepts; every \<open>Error\<close> instance has \<open>message\<close>), with its status, its message and
    the \<open>retry-after\<close> header of its response, each possibly undefined;
  \<^item> a standardized error object, which has neither property (the limiter throws these);
  \<^item> any other value, given by its \<open>String(error)\<close> rendering.

  The last field of the first and the third says what \<open>JSON.stringify\<close> does with the
  value: \<open>None\<close> if it serializes it, \<open>Some m\<close> if it throws a \<open>TypeError\<close> with message
  \<open>m\<close> (a circular reference, a \<open>BigInt\<close>). A standardized error object holds strings
  and numbers and is serialized.
\<close>

datatype thrown =
  ApiError "int option" "string option" "string option" "string option"
  | StdError StandardizedApplicationErrorObject
  | Primitive string "string option"

fun stringifyFailure :: "thrown \<Rightarrow> string option" where
  "stringifyFailure (ApiError _ _ _ sf) = sf"
| "stringifyFailure (StdError _) = None"
| "stringifyFailure (Primitive _ sf) = sf"

text \<open>A \<open>TypeError\<close> and a \<open>RangeError\<close> are \<open>Error\<close> instances with a message.\<close>

definition typeError :: "string \<Rightarrow> thrown" where
  "typeError m = ApiError None (Some m) None None"

definition rangeError :: thrown where
  "rangeError = ApiError None (Some ''Invalid time value'') None None"

text \<open>
  \<open>createGithubApiError(message, context)\<close> logs the context at error level before it
  builds the error object. The logger formats the context with \<open>JSON.stringify\<close>; on a
  context that cannot be serialized the \<open>TypeError\<close> leaves \<open>createGithubApiError\<close> and
  no error object is built. \<open>contextFailure\<close> is what \<open>JSON.stringify\<close> does with the
  context, as above. \<open>thrownBy\<close> is the value that the statement
  \<open>throw createGithubApiError(...)\<close> throws.
\<close>

definition createGithubApiError ::
  "string \<Rightarrow> string option \<Rightarrow> thrown + StandardizedApplicationErrorObject" where
  "createGithubApiError message contextFailure =
     (case contextFailure of
        Some m \<Rightarrow> Inl (typeError m)
      | None \<Rightarrow> Inr (githubApiErrorObject message))"

fun thrownBy :: "thrown + StandardizedApplicationErrorObject \<Rightarrow> thrown" where
  "thrownBy (Inl x) = x"
| "thrownBy (Inr e) = StdError e"

text \<open>
  The two fail-fast errors of the limiter carry the reset time in their context as
  \<open>new Date(resetTime).toISOString()\<close>. A \<open>Date\<close> holds the clipped time value: \<open>NaN\<close>
  for \<open>NaN\<close> and for a number beyond \<open>8.64e15\<close> in absolute value; \<open>toISOString\<close> throws
  a \<open>RangeError\<close> on it. The context is evaluated before \<open>createGithubApiError\<close> is
  called, so with such a reset time the \<open>RangeError\<close> is what the limiter throws.
  Otherwise the context holds two numbers and a string and is serialized.
\<close>

fun timeClip :: "jsnum \<Rightarrow> jsnum" where
  "timeClip (Num t) = (if \<bar>t\<bar> \<le> 8640000000000000 then Num t else NaN)"
| "timeClip NaN = NaN"

definition rateLimitFailure :: "string \<Rightarrow> jsnum \<Rightarrow> thrown" where
  "rateLimitFailure message rt =
     (case timeClip rt of
        NaN \<Rightarrow> rangeError
      | Num _ \<Rightarrow> thrownBy (createGithubApiError message None))"

section \<open>The rate limiter\<close>

record RateLimitInfo =
  remaining :: jsnum
  resetTime :: jsnum
  limit :: jsnum

text \<open>
  The configuration loader replaces an unparsable number by its fallback, so the two
  configured numbers are integers.
\<close>

record RateLimitingConfiguration =
  enabled :: bool
  minRemaining :: int
  resetBufferMs :: int

text \<open>
  \<open>Date.now()\<close> is an oracle: \<open>clk k\<close> is the value of the \<open>k\<close>-th reading of the
  clock. The mutable world of one limiter is its \<open>rateLimitInfo\<close> field and the number
  of clock readings taken so far.
\<close>

type_synonym clock = "nat \<Rightarrow> int"

record world =
  rateLimitInfo :: RateLimitInfo
  clockReads :: nat

definition dateNow :: "clock \<Rightarrow> world \<Rightarrow> int \<times> world" where
  "dateNow clk w = (clk (clockReads w), w\<lparr>clockReads := Suc (clockReads w)\<rparr>)"

text \<open>
  What a call does besides returning is recorded as a list of events: taking and
  releasing the mutex, every timer it sets (with the site that set it and the duration
  handed to \<open>setTimeout\<close>), and every invocation of the wrapped API call.
\<close>

datatype timerSite = CheckWait | ExceededWait | RetryBackoff

datatype event =
  MutexAcquire | MutexRelease | SetTimeout timerSite jsnum | ApiCall nat

fun timersOf :: "timerSite \<Rightarrow> event list \<Rightarrow> jsnum list" where
  "timersOf site [] = []"
| "timersOf site (SetTimeout s d # es) =
     (if s = site then d # timersOf site es else timersOf site es)"
| "timersOf site (_ # es) = timersOf site es"

fun isTimer :: "event \<Rightarrow> bool" where
  "isTimer (SetTimeout _ _) = True"
| "isTimer _ = False"

fun isApiCall :: "event \<Rightarrow> bool" where
  "isApiCall (ApiCall _) = True"
| "isApiCall _ = False"

definition checkRateLimit ::
  "RateLimitingConfiguration \<Rightarrow> clock \<Rightarrow> world
    \<Rightarrow> (thrown + unit) \<times> event list \<times> world" where
  "checkRateLimit cfg clk w =
     (if \<not> enabled cfg then (Inr (), [MutexAcquire, MutexRelease], w)
      else
        let (now, w1) = dateNow clk w;
            rt = resetTime (rateLimitInfo w1)
        in if jsLe (remaining (rateLimitInfo w1)) (Num (minRemaining cfg)) then
             let waitTime = jsAdd (jsSub rt (Num now)) (Num (resetBufferMs cfg))
             in if jsGt waitTime (Num 0) then
                  if jsGt waitTime (Num 60000) then
                    (Inl (rateLimitFailure
                            ''GitHub API rate limit exceeded, cannot proceed with request'' rt),
                     [MutexAcquire, MutexRelease], w1)
                  else
                    (Inr (), [MutexAcquire, SetTimeout CheckWait waitTime, MutexRelease], w1)
                else (Inr (), [MutexAcquire, MutexRelease], w1)
           else (Inr (), [MutexAcquire, MutexRelease], w1))"

text \<open>
  \<open>updateRateLimitFromHeaders\<close> builds the new record and hands it to
  \<open>safelyUpdateRateLimitInfo\<close>, which assigns it under the mutex. The caller does not
  await that assignment; the model applies it at the point of the call, so the world it
  returns is the one in which the pending update has run.
\<close>

type_synonym headers = "string \<rightharpoonup> string"

definition safelyUpdateRateLimitInfo :: "RateLimitInfo \<Rightarrow> world \<Rightarrow> event list \<times> world" where
  "safelyUpdateRateLimitInfo newInfo w =
     ([MutexAcquire, MutexRelease], w\<lparr>rateLimitInfo := newInfo\<rparr>)"

definition updateRateLimitFromHeaders :: "headers \<Rightarrow> world \<Rightarrow> event list \<times> world" where
  "updateRateLimitFromHeaders hs w =
     (case (hs ''x-ratelimit-remaining'', hs ''x-ratelimit-reset'', hs ''x-ratelimit-limit'') of
        (Some r, Some t, Some l) \<Rightarrow>
          safelyUpdateRateLimitInfo
            \<lparr> remaining = parseInt r,
              resetTime = jsMul (parseInt t) (Num 1000),
              limit = parseInt l \<rparr> w
      | _ \<Rightarrow> ([], w))"

text \<open>
  The wait of \<open>handleRateLimitExceeded\<close> when no usable retry-after value was
  passed: the reset time if it lies in the future (the clock is read a second time for
  the difference), else the configured buffer alone.
\<close>

definition resetBasedWait ::
  "RateLimitingConfiguration \<Rightarrow> clock \<Rightarrow> world \<Rightarrow> jsnum \<times> world" where
  "resetBasedWait cfg clk w =
     (let (now1, w1) = dateNow clk w
      in if jsGt (resetTime (rateLimitInfo w1)) (Num now1) then
           let (now2, w2) = dateNow clk w1
           in (jsAdd (jsSub (resetTime (rateLimitInfo w2)) (Num now2))
                     (Num (resetBufferMs cfg)), w2)
         else (Num (resetBufferMs cfg), w1))"

definition handleRateLimitExceeded ::
  "RateLimitingConfiguration \<Rightarrow> clock \<Rightarrow> string option \<Rightarrow> world
    \<Rightarrow> (thrown + unit) \<times> event list \<times> world" where
  "handleRateLimitExceeded cfg clk retryAfter w =
     (let (waitTime, w') =
            (case retryAfter of
               Some s \<Rightarrow>
                 if truthy (Some s) then (jsMul (parseInt s) (Num 1000), w)
                 else resetBasedWait cfg clk w
             | None \<Rightarrow> resetBasedWait cfg clk w)
      in if jsGt waitTime (Num 120000) then
           (Inl (rateLimitFailure ''GitHub API rate limit exceeded, retry not possible''
                   (resetTime (rateLimitInfo w'))),
            [MutexAcquire, MutexRelease], w')
         else
           (Inr (), [MutexAcquire, SetTimeout ExceededWait waitTime, MutexRelease], w'))"

section \<open>The service: retry with backoff around an API call\<close>

datatype 'a response = Response 'a "headers option"

definition MAX_RETRY_ATTEMPTS :: nat where
  "MAX_RETRY_ATTEMPTS = 3"

definition BASE_RETRY_DELAY_MS :: int where
  "BASE_RETRY_DELAY_MS = 1000"

fun isGitHubApiError :: "thrown \<Rightarrow> bool" where
  "isGitHubApiError (ApiError _ _ _ _) = True"
| "isGitHubApiError _ = False"

text \<open>\<open>error.status || 0\<close> under the guard \<open>isGitHubApiError\<close>, else the initial \<open>0\<close>.\<close>

fun statusCode :: "thrown \<Rightarrow> int" where
  "statusCode (ApiError (Some n) _ _ _) = n"
| "statusCode _ = 0"

text \<open>The message the \<open>catch\<close> clause of the executor extracts.\<close>

fun errorMessageOf :: "thrown \<Rightarrow> string" where
  "errorMessageOf (ApiError _ (Some m) _ _) = (if m = [] then ''GitHub API error'' else m)"
| "errorMessageOf (ApiError _ None _ _) = ''GitHub API error''"
| "errorMessageOf (StdError _) = ''[object Object]''"
| "errorMessageOf (Primitive s _) = s"

definition isRateLimitError :: "thrown \<Rightarrow> bool" where
  "isRateLimitError error =
     (isGitHubApiError error \<and> statusCode error = 403
      \<and> sublist ''API rate limit exceeded'' (errorMessageOf error))"

definition isTransientError :: "thrown \<Rightarrow> bool" where
  "isTransientError error =
     (statusCode error \<ge> 500 \<or> statusCode error = 429 \<or> isRateLimitError error)"

fun retryAfterOf :: "thrown \<Rightarrow> string option" where
  "retryAfterOf (ApiError _ _ ra _) = ra"
| "retryAfterOf _ = None"

fun handlerMessageOf :: "thrown \<Rightarrow> string" where
  "handlerMessageOf (ApiError _ (Some m) _ _) =
     (if m = [] then ''Unknown GitHub API error'' else m)"
| "handlerMessageOf (ApiError _ None _ _) = ''Unknown GitHub API error''"
| "handlerMessageOf (StdError _) = ''[object Object]''"
| "handlerMessageOf (Primitive s _) = s"

text \<open>
  \<open>handleGitHubApiError\<close> never returns: it throws what \<open>createGithubApiError\<close> builds
  from the message, with the caught value itself as the context
  (\<open>{ originalError: error }\<close>). Its value here is the value it throws: the standardized
  error, or the \<open>TypeError\<close> of the logger when the caught value cannot be serialized.
\<close>

definition handleGitHubApiError :: "thrown \<Rightarrow> string \<Rightarrow> thrown" where
  "handleGitHubApiError error operationName =
     thrownBy (createGithubApiError
       (''GitHub API error in '' @ operationName @ '': '' @ handlerMessageOf error)
       (stringifyFailure error))"

text \<open>
  The wrapped call is given by the outcome of each of its invocations: \<open>apiCall k\<close> is
  what the \<open>k\<close>-th invocation (counted from 0) returns or throws.

  \<open>tryBlock\<close> is the body of the \<open>try\<close>: the limiter is consulted, the call is made, and
  the headers of a response are handed to the limiter. Its value is the response or the
  value caught, the events, the number of invocations made so far, and the world.
\<close>

definition tryBlock ::
  "RateLimitingConfiguration \<Rightarrow> clock \<Rightarrow> (nat \<Rightarrow> thrown + 'a response) \<Rightarrow> nat \<Rightarrow> world
    \<Rightarrow> (thrown + 'a response) \<times> event list \<times> nat \<times> world" where
  "tryBlock cfg clk apiCall calls w =
     (case checkRateLimit cfg clk w of
        (Inl err, evs, w1) \<Rightarrow> (Inl err, evs, calls, w1)
      | (Inr _, evs, w1) \<Rightarrow>
          (case apiCall calls of
             Inl error \<Rightarrow> (Inl error, evs @ [ApiCall calls], Suc calls, w1)
           | Inr (Response x hdrs) \<Rightarrow>
               (case hdrs of
                  None \<Rightarrow> (Inr (Response x hdrs), evs @ [ApiCall calls], Suc calls, w1)
                | Some hs \<Rightarrow>
                    let (evs2, w2) = updateRateLimitFromHeaders hs w1
                    in (Inr (Response x hdrs), evs @ [ApiCall calls] @ evs2, Suc calls, w2))))"

definition prependEvents ::
  "event list \<Rightarrow> 'r \<times> event list \<times> world \<Rightarrow> 'r \<times> event list \<times> world" where
  "prependEvents evs res = (case res of (r, es, w) \<Rightarrow> (r, evs @ es, w))"

function executeLoop ::
  "RateLimitingConfiguration \<Rightarrow> clock \<Rightarrow> string \<Rightarrow> (nat \<Rightarrow> thrown + 'a response)
    \<Rightarrow> nat \<Rightarrow> nat \<Rightarrow> world \<Rightarrow> (thrown + 'a response) \<times> event list \<times> world" where
  "executeLoop cfg clk operationName apiCall retryCount calls w =
     (case tryBlock cfg clk apiCall calls w of
        (Inr resp, evs, calls1, w1) \<Rightarrow> (Inr resp, evs, w1)
      | (Inl error, evs, calls1, w1) \<Rightarrow>
          if isTransientError error \<and> retryCount < MAX_RETRY_ATTEMPTS then
            let delay = BASE_RETRY_DELAY_MS * 2 ^ (Suc retryCount)
            in if isRateLimitError error then
                 (case handleRateLimitExceeded cfg clk (retryAfterOf error) w1 of
                    (Inl err, evs3, w3) \<Rightarrow> (Inl err, evs @ evs3, w3)
                  | (Inr _, evs3, w3) \<Rightarrow>
                      prependEvents (evs @ evs3)
                        (executeLoop cfg clk operationName apiCall (Suc retryCount) calls1 w3))
               else
                 prependEvents (evs @ [SetTimeout RetryBackoff (Num delay)])
                   (executeLoop cfg clk operationName apiCall (Suc retryCount) calls1 w1)
          else (Inl (handleGitHubApiError error operationName), evs, w1))"
  by pat_completeness auto
termination
  by (relation "measure (\<lambda>(cfg, clk, operationName, apiCall, retryCount, calls, w).
        MAX_RETRY_ATTEMPTS - retryCount)") auto

declare executeLoop.simps [simp del]

definition executeWithRateLimiting ::
  "RateLimitingConfiguration \<Rightarrow> clock \<Rightarrow> string \<Rightarrow> (nat \<Rightarrow> thrown + 'a response)
    \<Rightarrow> world \<Rightarrow> (thrown + 'a response) \<times> event list \<times> world" where
  "executeWithRateLimiting cfg clk operationName apiCall w =
     executeLoop cfg clk operationName apiCall 0 0 w"

section \<open>The general retry helper of the promise utilities\<close>

text \<open>
  \<open>withRetry\<close> is the retry loop of the promise utilities; the service imports it next
  to \<open>createSafeTimeout\<close>. It is modelled for a call without the optional \<open>onRetry\<close>
  handler. \<open>operation k\<close> is the outcome of the invocation made at attempt \<open>k\<close>;
  \<open>lastError\<close> is \<open>None\<close> while it is undefined.
\<close>

function withRetry ::
  "nat \<Rightarrow> int \<Rightarrow> ('e \<Rightarrow> bool) \<Rightarrow> (nat \<Rightarrow> 'e + 'a) \<Rightarrow> nat \<Rightarrow> 'e option
    \<Rightarrow> ('e option + 'a) \<times> event list" where
  "withRetry maxRetries baseDelayMs shouldRetry operation attempt lastError =
     (if attempt \<le> maxRetries then
        (case operation attempt of
           Inr v \<Rightarrow> (Inr v, [ApiCall attempt])
         | Inl error \<Rightarrow>
             if attempt < maxRetries \<and> shouldRetry error then
               let delay = baseDelayMs * 2 ^ attempt;
                   (r, es) = withRetry maxRetries baseDelayMs shouldRetry operation
                               (Suc attempt) (Some error)
               in (r, [ApiCall attempt, SetTimeout RetryBackoff (Num delay)] @ es)
             else (Inl (Some error), [ApiCall attempt]))
      else (Inl lastError, []))"
  by pat_completeness auto
termination
  by (relation "measure (\<lambda>(maxRetries, baseDelayMs, shouldRetry, operation, attempt, lastError).
        Suc maxRetries - attempt)") auto

declare withRetry.simps [simp del]

section \<open>The cancellable timeout\<close>

text \<open>
  \<open>createSafeTimeout(ms)\<close> arms one timer and returns a promise and a \<open>cancel\<close>
  function that share the flag \<open>cancelled\<close>. The state is the duration handed to
  \<open>setTimeout\<close>, the flag, whether the timer is still pending (neither fired nor
  cleared), and how often \<open>resolve\<close> has been called. Debug logging is left out.

  The runtime runs the callback of a pending timer once, when its duration has elapsed
  (\<open>timerElapses\<close>); a timer that was cleared never runs its callback.
\<close>

record CancellableTimeout =
  delayMs :: jsnum
  cancelled :: bool
  timerPending :: bool
  resolveCalls :: nat

definition createSafeTimeout :: "jsnum \<Rightarrow> CancellableTimeout" where
  "createSafeTimeout ms =
     \<lparr> delayMs = ms, cancelled = False, timerPending = True, resolveCalls = 0 \<rparr>"

definition timerCallback :: "CancellableTimeout \<Rightarrow> CancellableTimeout" where
  "timerCallback t =
     (if \<not> cancelled t then t\<lparr>resolveCalls := Suc (resolveCalls t)\<rparr> else t)"

definition timerElapses :: "CancellableTimeout \<Rightarrow> CancellableTimeout" where
  "timerElapses t =
     (if timerPending t then timerCallback (t\<lparr>timerPending := False\<rparr>) else t)"

definition cancel :: "CancellableTimeout \<Rightarrow> CancellableTimeout" where
  "cancel t =
     (if \<not> cancelled t then t\<lparr>cancelled := True, timerPending := False\<rparr> else t)"

datatype timeoutEvent = Elapse | Cancel

fun timeoutStep :: "timeoutEvent \<Rightarrow> CancellableTimeout \<Rightarrow> CancellableTimeout" where
  "timeoutStep Elapse t = timerElapses t"
| "timeoutStep Cancel t = cancel t"

fun timeoutRun :: "timeoutEvent list \<Rightarrow> CancellableTimeout \<Rightarrow> CancellableTimeout" where
  "timeoutRun [] t = t"
| "timeoutRun (e # es) t = timeoutRun es (timeoutStep e t)"

section \<open>The mutex under the cooperative scheduler\<close>

text \<open>
  Promises are numbered. The mutex holds \<open>_locking\<close> (a promise) and \<open>_locked\<close>. A call
  of \<open>acquire\<close> by task \<open>t\<close> runs up to \<open>await this._locking\<close>: it reads the promise
  stored at that moment and suspends on it. If that promise is already resolved, the
  continuation is put on the microtask queue at once; otherwise it is put there when the
  promise is resolved. The continuation sets \<open>_locked\<close>, stores a fresh promise in
  \<open>_locking\<close> and returns the release function of that promise, which makes the caller's
  own continuation (the critical section) the next job for that task. The release
  function clears \<open>_locked\<close> and resolves its promise. The microtask queue is first-in
  first-out.
\<close>

datatype job = AcquireCont nat | CallerCont nat nat

record AsyncMutex =
  locking :: nat
  locked :: bool
  resolvedPromises :: "nat list"
  freshPromise :: nat
  awaiting :: "(nat \<times> nat) list"
  microtasks :: "job list"
  critical :: "(nat \<times> nat) list"

definition newAsyncMutex :: AsyncMutex where
  "newAsyncMutex =
     \<lparr> locking = 0, locked = False, resolvedPromises = [0], freshPromise = 1,
       awaiting = [], microtasks = [], critical = [] \<rparr>"

definition callAcquire :: "nat \<Rightarrow> AsyncMutex \<Rightarrow> AsyncMutex" where
  "callAcquire t m =
     (if locking m \<in> set (resolvedPromises m)
      then m\<lparr>microtasks := microtasks m @ [AcquireCont t]\<rparr>
      else m\<lparr>awaiting := awaiting m @ [(t, locking m)]\<rparr>)"

definition runMicrotask :: "AsyncMutex \<Rightarrow> AsyncMutex option" where
  "runMicrotask m =
     (case microtasks m of
        [] \<Rightarrow> None
      | AcquireCont t # rest \<Rightarrow>
          Some (m\<lparr>locked := True, locking := freshPromise m,
                  freshPromise := Suc (freshPromise m),
                  microtasks := rest @ [CallerCont t (freshPromise m)]\<rparr>)
      | CallerCont t p # rest \<Rightarrow>
          Some (m\<lparr>microtasks := rest, critical := critical m @ [(t, p)]\<rparr>))"

definition releaseFn :: "nat \<Rightarrow> AsyncMutex \<Rightarrow> AsyncMutex option" where
  "releaseFn t m =
     (case map_of (critical m) t of
        None \<Rightarrow> None
      | Some p \<Rightarrow>
          Some (m\<lparr>locked := False,
                  resolvedPromises := p # resolvedPromises m,
                  critical := filter (\<lambda>(t', _). t' \<noteq> t) (critical m),
                  microtasks := microtasks m
                    @ map (\<lambda>(t', _). AcquireCont t') (filter (\<lambda>(_, q). q = p) (awaiting m)),
                  awaiting := filter (\<lambda>(_, q). q \<noteq> p) (awaiting m)\<rparr>))"

datatype action = CallAcquire nat | RunMicrotask | Release nat

fun mutexStep :: "action \<Rightarrow> AsyncMutex \<Rightarrow> AsyncMutex option" where
  "mutexStep (CallAcquire t) m = Some (callAcquire t m)"
| "mutexStep RunMicrotask m = runMicrotask m"
| "mutexStep (Release t) m = releaseFn t m"

fun mutexRun :: "action list \<Rightarrow> AsyncMutex \<Rightarrow> AsyncMutex option" where
  "mutexRun [] m = Some m"
| "mutexRun (a # as) m = (case mutexStep a m of None \<Rightarrow> None | Some m' \<Rightarrow> mutexRun as m')"

definition inCriticalSection :: "AsyncMutex \<Rightarrow> nat list" where
  "inCriticalSection m = map fst (critical m)"

section \<open>Concrete inputs\<close>

definition fixedClock :: "int \<Rightarrow> clock" where
  "fixedClock t k = t"

definition cfgOn :: RateLimitingConfiguration where
  "cfgOn = \<lparr> enabled = True, minRemaining = 50, resetBufferMs = 500 \<rparr>"

definition cfgOff :: RateLimitingConfiguration where
  "cfgOff = \<lparr> enabled = False, minRemaining = 50, resetBufferMs = 500 \<rparr>"

text \<open>Few requests left, reset two seconds after the clock reading 1000.\<close>

definition worldLow :: world where
  "worldLow =
     \<lparr> rateLimitInfo = \<lparr> remaining = Num 10, resetTime = Num 3000, limit = Num 5000 \<rparr>,
       clockReads = 0 \<rparr>"

text \<open>The limiter's initial state at clock reading 1000: full quota, reset an hour out.\<close>

definition worldFresh :: world where
  "worldFresh =
     \<lparr> rateLimitInfo = \<lparr> remaining = Num 5000, resetTime = Num 3601000, limit = Num 5000 \<rparr>,
       clockReads = 0 \<rparr>"

text \<open>Few requests left and the reset an hour out.\<close>

definition worldExhausted :: world where
  "worldExhausted =
     \<lparr> rateLimitInfo = \<lparr> remaining = Num 10, resetTime = Num 3601000, limit = Num 5000 \<rparr>,
       clockReads = 0 \<rparr>"

text \<open>A reset time beyond the range of \<open>Date\<close>, and one that did not parse.\<close>

definition worldBeyondDate :: world where
  "worldBeyondDate =
     \<lparr> rateLimitInfo = \<lparr> remaining = Num 10, resetTime = Num 10000000000000000,
                         limit = Num 5000 \<rparr>,
       clockReads = 0 \<rparr>"

definition worldNaNReset :: world where
  "worldNaNReset =
     \<lparr> rateLimitInfo = \<lparr> remaining = Num 10, resetTime = NaN, limit = Num 5000 \<rparr>,
       clockReads = 0 \<rparr>"

definition alwaysThrows :: "thrown \<Rightarrow> nat \<Rightarrow> thrown + unit response" where
  "alwaysThrows error k = Inl error"

definition serverError :: thrown where
  "serverError = ApiError (Some 500) (Some ''Internal Server Error'') None None"

definition badRequest :: thrown where
  "badRequest = ApiError (Some 400) (Some ''Bad Request'') None None"

text \<open>A status-400 error object that refers to itself (\<open>error.self = error\<close>).\<close>

definition badRequestCircular :: thrown where
  "badRequestCircular =
     ApiError (Some 400) (Some ''Bad Request'') None
       (Some ''Converting circular structure to JSON'')"

definition quotaError :: "string option \<Rightarrow> thrown" where
  "quotaError ra = ApiError (Some 403) (Some ''API rate limit exceeded for user'') ra None"

definition headersUnparsable :: headers where
  "headersUnparsable =
     map_of [(''x-ratelimit-remaining'', ''abc''),
             (''x-ratelimit-reset'', ''1700000000''),
             (''x-ratelimit-limit'', ''5000'')]"

definition headersComplete :: headers where
  "headersComplete =
     map_of [(''x-ratelimit-remaining'', ''4999''),
             (''x-ratelimit-reset'', ''1700000000''),
             (''x-ratelimit-limit'', ''5000'')]"

definition headersBeyondDate :: headers where
  "headersBeyondDate =
     map_of [(''x-ratelimit-remaining'', ''10''),
             (''x-ratelimit-reset'', ''10000000000000''),
             (''x-ratelimit-limit'', ''5000'')]"

definition headersUnparsableReset :: headers where
  "headersUnparsableReset =
     map_of [(''x-ratelimit-remaining'', ''10''),
             (''x-ratelimit-reset'', ''soon''),
             (''x-ratelimit-limit'', ''5000'')]"

definition headersPartial :: headers where
  "headersPartial =
     map_of [(''x-ratelimit-remaining'', ''4999''),
             (''x-ratelimit-limit'', ''5000'')]"

definition retryAlways :: "thrown \<Rightarrow> bool" where
  "retryAlways error = True"

section \<open>Notions used to state the properties\<close>

text \<open>
  The wait time of \<open>handleRateLimitExceeded\<close> as the specification words it: the
  retry-after value times 1000 when one is supplied (a non-empty string), else the time
  to the reset plus the buffer when the reset lies in the future, else the buffer alone.
  \<open>nowTest\<close> is the clock reading compared with the reset time and \<open>nowDiff\<close> the one
  subtracted from it.
\<close>

definition spec_exceededWait ::
  "RateLimitingConfiguration \<Rightarrow> string option \<Rightarrow> jsnum \<Rightarrow> int \<Rightarrow> int \<Rightarrow> jsnum" where
  "spec_exceededWait cfg retryAfter rt nowTest nowDiff =
     (case retryAfter of
        Some (c # cs) \<Rightarrow> jsMul (parseInt (c # cs)) (Num 1000)
      | _ \<Rightarrow> if jsGt rt (Num nowTest)
             then jsAdd (jsSub rt (Num nowDiff)) (Num (resetBufferMs cfg))
             else Num (resetBufferMs cfg))"

text \<open>A reset time is a valid time value if a \<open>Date\<close> can hold it.\<close>

definition validTimeValue :: "jsnum \<Rightarrow> bool" where
  "validTimeValue rt = (timeClip rt \<noteq> NaN)"

text \<open>A sequence of header updates, applied in order.\<close>

fun applyUpdates :: "headers list \<Rightarrow> world \<Rightarrow> world" where
  "applyUpdates [] w = w"
| "applyUpdates (hs # hss) w = applyUpdates hss (snd (updateRateLimitFromHeaders hs w))"

definition completeTriple :: "headers \<Rightarrow> bool" where
  "completeTriple hs =
     (hs ''x-ratelimit-remaining'' \<noteq> None \<and> hs ''x-ratelimit-reset'' \<noteq> None
      \<and> hs ''x-ratelimit-limit'' \<noteq> None)"

text \<open>Every invocation of the call throws a transient error.\<close>

definition alwaysTransient :: "(nat \<Rightarrow> thrown + 'a response) \<Rightarrow> bool" where
  "alwaysTransient apiCall = (\<forall>k. \<exists>error. apiCall k = Inl error \<and> isTransientError error)"

text \<open>
  The limiter does not fail fast during a call of the executor: every \<open>checkRateLimit\<close>
  and every \<open>handleRateLimitExceeded\<close> that the call makes returns. The predicate follows
  the call from the state of the loop (\<open>retryCount\<close>, the number of invocations made, the
  world) and looks at the results of the limiter only, at the clock readings and with
  the retry-after values that the call itself meets.
\<close>

function limiterAdmitsFrom ::
  "RateLimitingConfiguration \<Rightarrow> clock \<Rightarrow> (nat \<Rightarrow> thrown + 'a response)
    \<Rightarrow> nat \<Rightarrow> nat \<Rightarrow> world \<Rightarrow> bool" where
  "limiterAdmitsFrom cfg clk apiCall retryCount calls w =
     (case checkRateLimit cfg clk w of
        (Inl x, evs, w1) \<Rightarrow> False
      | (Inr u, evs, w1) \<Rightarrow>
          (case apiCall calls of
             Inr resp \<Rightarrow> True
           | Inl error \<Rightarrow>
               if isTransientError error \<and> retryCount < MAX_RETRY_ATTEMPTS then
                 if isRateLimitError error then
                   (case handleRateLimitExceeded cfg clk (retryAfterOf error) w1 of
                      (Inl x, evs3, w3) \<Rightarrow> False
                    | (Inr u3, evs3, w3) \<Rightarrow>
                        limiterAdmitsFrom cfg clk apiCall (Suc retryCount) (Suc calls) w3)
                 else limiterAdmitsFrom cfg clk apiCall (Suc retryCount) (Suc calls) w1
               else True))"
  by pat_completeness auto
termination
  by (relation "measure (\<lambda>(cfg, clk, apiCall, retryCount, calls, w).
        MAX_RETRY_ATTEMPTS - retryCount)") auto

declare limiterAdmitsFrom.simps [simp del]

definition limiterAdmits ::
  "RateLimitingConfiguration \<Rightarrow> clock \<Rightarrow> (nat \<Rightarrow> thrown + 'a response) \<Rightarrow> world \<Rightarrow> bool" where
  "limiterAdmits cfg clk apiCall w = limiterAdmitsFrom cfg clk apiCall 0 0 w"

text \<open>A clock that advances by one second with every reading.\<close>

definition tickingClock :: clock where
  "tickingClock k = 1000 + 1000 * int k"

text \<open>Every invocation of the call throws a transient error that is not a quota error.\<close>

definition alwaysServerFault :: "(nat \<Rightarrow> thrown + 'a response) \<Rightarrow> bool" where
  "alwaysServerFault apiCall =
     (\<forall>k. \<exists>error. apiCall k = Inl error \<and> isTransientError error
            \<and> \<not> isRateLimitError error)"

text \<open>
  The quota state a call of the executor leaves behind, given its result: that of the
  header update when the result is a response with headers, the state before otherwise.
\<close>

definition infoAfter :: "(thrown + 'a response) \<Rightarrow> world \<Rightarrow> RateLimitInfo" where
  "infoAfter r w =
     (case r of
        Inr (Response x (Some hs)) \<Rightarrow> rateLimitInfo (snd (updateRateLimitFromHeaders hs w))
      | _ \<Rightarrow> rateLimitInfo w)"

definition releasesOnce :: "event list \<Rightarrow> bool" where
  "releasesOnce evs =
     (length (filter (\<lambda>e. e = MutexAcquire) evs) = 1
      \<and> length (filter (\<lambda>e. e = MutexRelease) evs) = 1
      \<and> hd evs = MutexAcquire \<and> last evs = MutexRelease)"

section \<open>Auxiliary facts\<close>

lemma githubApiErrorObject_category:
  "errorCategory (githubApiErrorObject message) = CATEGORY_GITHUB_API"
  by (simp add: githubApiErrorObject_def createStandardizedError_def)

lemma rateLimitFailure_valid:
  "validTimeValue rt \<Longrightarrow> rateLimitFailure message rt = StdError (githubApiErrorObject message)"
  by (cases "timeClip rt")
     (simp_all add: validTimeValue_def rateLimitFailure_def createGithubApiError_def)

lemma rateLimitFailure_category:
  "validTimeValue rt \<Longrightarrow>
   \<exists>e. rateLimitFailure message rt = StdError e \<and> errorCategory e = CATEGORY_GITHUB_API"
  by (simp add: rateLimitFailure_valid githubApiErrorObject_category)

lemma rateLimitFailure_terminal:
  "\<not> isTransientError (rateLimitFailure message rt)"
  by (cases "timeClip rt")
     (simp_all add: rateLimitFailure_def createGithubApiError_def rangeError_def
        isTransientError_def isRateLimitError_def)

lemma handleGitHubApiError_serializable:
  "stringifyFailure error = None \<Longrightarrow>
   handleGitHubApiError error operationName
     = StdError (githubApiErrorObject
         (''GitHub API error in '' @ operationName @ '': '' @ handlerMessageOf error))"
  by (simp add: handleGitHubApiError_def createGithubApiError_def)

lemma handleGitHubApiError_category:
  "stringifyFailure error = None \<Longrightarrow>
   \<exists>e. handleGitHubApiError error operationName = StdError e
       \<and> errorCategory e = CATEGORY_GITHUB_API"
  by (simp add: handleGitHubApiError_serializable githubApiErrorObject_category)

lemma handleGitHubApiError_unserializable:
  "stringifyFailure error = Some m \<Longrightarrow> handleGitHubApiError error operationName = typeError m"
  by (simp add: handleGitHubApiError_def createGithubApiError_def)

lemma checkRateLimit_no_calls:
  "filter isApiCall (fst (snd (checkRateLimit cfg clk w))) = []"
  by (simp add: checkRateLimit_def dateNow_def Let_def)

lemma checkRateLimit_info:
  "rateLimitInfo (snd (snd (checkRateLimit cfg clk w))) = rateLimitInfo w"
  by (simp add: checkRateLimit_def dateNow_def Let_def)

lemma checkRateLimit_terminal:
  "fst (checkRateLimit cfg clk w) = Inl x \<Longrightarrow> \<not> isTransientError x"
  by (auto simp add: checkRateLimit_def dateNow_def Let_def rateLimitFailure_terminal
        split: if_splits)

lemma checkRateLimit_other_timers:
  "site \<noteq> CheckWait \<Longrightarrow> timersOf site (fst (snd (checkRateLimit cfg clk w))) = []"
  by (simp add: checkRateLimit_def dateNow_def Let_def)

lemma resetBasedWait_info:
  "rateLimitInfo (snd (resetBasedWait cfg clk w)) = rateLimitInfo w"
  by (simp add: resetBasedWait_def dateNow_def Let_def)

lemma handleRateLimitExceeded_no_calls:
  "filter isApiCall (fst (snd (handleRateLimitExceeded cfg clk ra w))) = []"
  by (simp add: handleRateLimitExceeded_def Let_def split: option.splits prod.splits)

lemma handleRateLimitExceeded_info:
  "rateLimitInfo (snd (snd (handleRateLimitExceeded cfg clk ra w))) = rateLimitInfo w"
proof -
  obtain wt w' where r: "resetBasedWait cfg clk w = (wt, w')"
    by (cases "resetBasedWait cfg clk w") auto
  have "rateLimitInfo w' = rateLimitInfo w"
    using resetBasedWait_info[of cfg clk w] r by simp
  then show ?thesis
    using r by (simp add: handleRateLimitExceeded_def Let_def split: option.splits)
qed

lemma prependEvents_parts:
  "fst (prependEvents evs res) = fst res"
  "fst (snd (prependEvents evs res)) = evs @ fst (snd res)"
  "snd (snd (prependEvents evs res)) = snd (snd res)"
  by (simp_all add: prependEvents_def split: prod.splits)

lemma timersOf_append:
  "timersOf site (xs @ ys) = timersOf site xs @ timersOf site ys"
  by (induction site xs rule: timersOf.induct) simp_all

subsection \<open>One iteration of the retry loop\<close>

lemma tryBlock_throwing:
  assumes "fst (checkRateLimit cfg clk w) = Inr ()" and "apiCall calls = Inl error"
  shows "tryBlock cfg clk apiCall calls w
           = (Inl error, fst (snd (checkRateLimit cfg clk w)) @ [ApiCall calls], Suc calls,
              snd (snd (checkRateLimit cfg clk w)))"
proof -
  obtain r evs w1 where c: "checkRateLimit cfg clk w = (r, evs, w1)"
    by (cases "checkRateLimit cfg clk w") auto
  with assms(1) have "r = Inr ()" by simp
  with c assms(2) show ?thesis by (simp add: tryBlock_def)
qed

lemma tryBlock_refused:
  assumes "fst (checkRateLimit cfg clk w) = Inl x"
  shows "tryBlock cfg clk apiCall calls w
           = (Inl x, fst (snd (checkRateLimit cfg clk w)), calls,
              snd (snd (checkRateLimit cfg clk w)))"
proof -
  obtain r evs w1 where c: "checkRateLimit cfg clk w = (r, evs, w1)"
    by (cases "checkRateLimit cfg clk w") auto
  with assms show ?thesis by (simp add: tryBlock_def)
qed

lemma tryBlock_invokes:
  assumes "fst (checkRateLimit cfg clk w) = Inr ()"
  shows "ApiCall calls \<in> set (fst (snd (tryBlock cfg clk apiCall calls w)))"
proof -
  obtain r evs w1 where c: "checkRateLimit cfg clk w = (r, evs, w1)"
    by (cases "checkRateLimit cfg clk w") auto
  with assms have "r = Inr ()" by simp
  with c show ?thesis
    by (simp add: tryBlock_def split: sum.splits response.splits option.splits prod.splits)
qed

lemma executeLoop_returns:
  assumes "tryBlock cfg clk apiCall calls w = (Inr resp, evs, calls1, w1)"
  shows "executeLoop cfg clk operationName apiCall retryCount calls w = (Inr resp, evs, w1)"
  using assms by (subst executeLoop.simps) simp

lemma executeLoop_gives_up:
  assumes "tryBlock cfg clk apiCall calls w = (Inl error, evs, calls1, w1)"
      and "\<not> (isTransientError error \<and> retryCount < MAX_RETRY_ATTEMPTS)"
  shows "executeLoop cfg clk operationName apiCall retryCount calls w
           = (Inl (handleGitHubApiError error operationName), evs, w1)"
  by (subst executeLoop.simps) (simp add: assms(1) if_not_P [OF assms(2)])

lemma executeLoop_backs_off:
  assumes "tryBlock cfg clk apiCall calls w = (Inl error, evs, calls1, w1)"
      and "isTransientError error" and "retryCount < MAX_RETRY_ATTEMPTS"
      and "\<not> isRateLimitError error"
  shows "executeLoop cfg clk operationName apiCall retryCount calls w
           = prependEvents
               (evs @ [SetTimeout RetryBackoff (Num (BASE_RETRY_DELAY_MS * 2 ^ Suc retryCount))])
               (executeLoop cfg clk operationName apiCall (Suc retryCount) calls1 w1)"
  using assms by (subst executeLoop.simps) (simp add: Let_def)

lemma executeLoop_quota_refused:
  assumes "tryBlock cfg clk apiCall calls w = (Inl error, evs, calls1, w1)"
      and "isTransientError error" and "retryCount < MAX_RETRY_ATTEMPTS"
      and "isRateLimitError error"
      and "handleRateLimitExceeded cfg clk (retryAfterOf error) w1 = (Inl err, evs3, w3)"
  shows "executeLoop cfg clk operationName apiCall retryCount calls w
           = (Inl err, evs @ evs3, w3)"
  using assms by (subst executeLoop.simps) (simp add: Let_def)

lemma executeLoop_quota_waits:
  assumes "tryBlock cfg clk apiCall calls w = (Inl error, evs, calls1, w1)"
      and "isTransientError error" and "retryCount < MAX_RETRY_ATTEMPTS"
      and "isRateLimitError error"
      and "handleRateLimitExceeded cfg clk (retryAfterOf error) w1 = (Inr u, evs3, w3)"
  shows "executeLoop cfg clk operationName apiCall retryCount calls w
           = prependEvents (evs @ evs3)
               (executeLoop cfg clk operationName apiCall (Suc retryCount) calls1 w3)"
  using assms by (subst executeLoop.simps) (simp add: Let_def)

subsection \<open>The limiter during a call of the executor\<close>

lemma limiterAdmitsFrom_check:
  assumes "limiterAdmitsFrom cfg clk apiCall retryCount calls w"
  shows "fst (checkRateLimit cfg clk w) = Inr ()"
proof (cases "fst (checkRateLimit cfg clk w)")
  case (Inl x)
  obtain r evs w1 where c: "checkRateLimit cfg clk w = (r, evs, w1)"
    by (cases "checkRateLimit cfg clk w") auto
  with Inl assms show ?thesis
    by (subst (asm) limiterAdmitsFrom.simps) simp
next
  case (Inr u)
  then show ?thesis by simp
qed

lemma limiterAdmitsFrom_refused:
  assumes "fst (checkRateLimit cfg clk w) = Inl x"
  shows "\<not> limiterAdmitsFrom cfg clk apiCall retryCount calls w"
  using assms limiterAdmitsFrom_check [of cfg clk apiCall retryCount calls w] by auto

lemma limiterAdmitsFrom_last:
  assumes "fst (checkRateLimit cfg clk w) = Inr ()" and "apiCall calls = Inl error"
      and "\<not> (isTransientError error \<and> retryCount < MAX_RETRY_ATTEMPTS)"
  shows "limiterAdmitsFrom cfg clk apiCall retryCount calls w"
proof -
  obtain r evs w1 where c: "checkRateLimit cfg clk w = (r, evs, w1)"
    by (cases "checkRateLimit cfg clk w") auto
  with assms(1) have "r = Inr ()" by simp
  with c assms(2) show ?thesis
    by (subst limiterAdmitsFrom.simps) (simp add: if_not_P [OF assms(3)])
qed

lemma limiterAdmitsFrom_backs_off:
  assumes "fst (checkRateLimit cfg clk w) = Inr ()" and "apiCall calls = Inl error"
      and "isTransientError error" and "retryCount < MAX_RETRY_ATTEMPTS"
      and "\<not> isRateLimitError error"
  shows "limiterAdmitsFrom cfg clk apiCall retryCount calls w
           = limiterAdmitsFrom cfg clk apiCall (Suc retryCount) (Suc calls)
               (snd (snd (checkRateLimit cfg clk w)))"
proof -
  obtain r evs w1 where c: "checkRateLimit cfg clk w = (r, evs, w1)"
    by (cases "checkRateLimit cfg clk w") auto
  with assms(1) have "r = Inr ()" by simp
  with c assms(2-5) show ?thesis
    by (subst limiterAdmitsFrom.simps) simp
qed

lemma limiterAdmitsFrom_quota_refused:
  assumes "fst (checkRateLimit cfg clk w) = Inr ()" and "apiCall calls = Inl error"
      and "isTransientError error" and "retryCount < MAX_RETRY_ATTEMPTS"
      and "isRateLimitError error"
      and "fst (handleRateLimitExceeded cfg clk (retryAfterOf error)
                  (snd (snd (checkRateLimit cfg clk w)))) = Inl x"
  shows "\<not> limiterAdmitsFrom cfg clk apiCall retryCount calls w"
proof -
  obtain r evs w1 where c: "checkRateLimit cfg clk w = (r, evs, w1)"
    by (cases "checkRateLimit cfg clk w") auto
  with assms(1) have r: "r = Inr ()" by simp
  obtain r3 evs3 w3 where
    h: "handleRateLimitExceeded cfg clk (retryAfterOf error) w1 = (r3, evs3, w3)"
    by (cases "handleRateLimitExceeded cfg clk (retryAfterOf error) w1") auto
  with c assms(6) have "r3 = Inl x" by simp
  with c r h assms(2-5) show ?thesis
    by (subst limiterAdmitsFrom.simps) simp
qed

lemma limiterAdmitsFrom_quota_waits:
  assumes "fst (checkRateLimit cfg clk w) = Inr ()" and "apiCall calls = Inl error"
      and "isTransientError error" and "retryCount < MAX_RETRY_ATTEMPTS"
      and "isRateLimitError error"
      and "fst (handleRateLimitExceeded cfg clk (retryAfterOf error)
                  (snd (snd (checkRateLimit cfg clk w)))) = Inr ()"
  shows "limiterAdmitsFrom cfg clk apiCall retryCount calls w
           = limiterAdmitsFrom cfg clk apiCall (Suc retryCount) (Suc calls)
               (snd (snd (handleRateLimitExceeded cfg clk (retryAfterOf error)
                            (snd (snd (checkRateLimit cfg clk w))))))"
proof -
  obtain r evs w1 where c: "checkRateLimit cfg clk w = (r, evs, w1)"
    by (cases "checkRateLimit cfg clk w") auto
  with assms(1) have r: "r = Inr ()" by simp
  obtain r3 evs3 w3 where
    h: "handleRateLimitExceeded cfg clk (retryAfterOf error) w1 = (r3, evs3, w3)"
    by (cases "handleRateLimitExceeded cfg clk (retryAfterOf error) w1") auto
  with c assms(6) have "r3 = Inr ()" by simp
  with c r h assms(2-5) show ?thesis
    by (subst limiterAdmitsFrom.simps) simp
qed

subsection \<open>A call that always throws a transient error\<close>

text \<open>
  From any state of the loop with \<open>n\<close> retries left: if the limiter admits the rest of
  the call, the call is invoked \<open>n + 1\<close> more times and the executor throws what
  \<open>handleGitHubApiError\<close> makes of the last error; if the limiter fails fast somewhere,
  the call is invoked at most \<open>n\<close> more times.
\<close>

lemma executeLoop_always_transient:
  assumes at: "alwaysTransient apiCall"
  shows "MAX_RETRY_ATTEMPTS - retryCount = n \<Longrightarrow>
         (limiterAdmitsFrom cfg clk apiCall retryCount calls w \<longrightarrow>
            length (filter isApiCall
              (fst (snd (executeLoop cfg clk operationName apiCall retryCount calls w)))) = Suc n
            \<and> (\<exists>error. apiCall (calls + n) = Inl error
                 \<and> fst (executeLoop cfg clk operationName apiCall retryCount calls w)
                     = Inl (handleGitHubApiError error operationName)))
       \<and> (\<not> limiterAdmitsFrom cfg clk apiCall retryCount calls w \<longrightarrow>
            length (filter isApiCall
              (fst (snd (executeLoop cfg clk operationName apiCall retryCount calls w)))) \<le> n)"
proof (induction n arbitrary: retryCount calls w)
  case 0
  let ?c = "checkRateLimit cfg clk w"
  show ?case
  proof (cases "fst ?c")
    case (Inl x)
    have nr: "\<not> (isTransientError x \<and> retryCount < MAX_RETRY_ATTEMPTS)"
      using checkRateLimit_terminal [OF Inl] by simp
    note step = executeLoop_gives_up
      [OF tryBlock_refused [where apiCall = apiCall and calls = calls, OF Inl] nr]
    show ?thesis
      using limiterAdmitsFrom_refused [OF Inl, of apiCall retryCount calls]
      by (simp add: step checkRateLimit_no_calls)
  next
    case (Inr u)
    then have c: "fst ?c = Inr ()" by simp
    obtain error where e: "apiCall calls = Inl error"
      using at unfolding alwaysTransient_def by blast
    have nr: "\<not> (isTransientError error \<and> retryCount < MAX_RETRY_ATTEMPTS)"
      using "0.prems" by simp
    note step = executeLoop_gives_up
      [OF tryBlock_throwing [where apiCall = apiCall and calls = calls, OF c e] nr]
    show ?thesis
      using limiterAdmitsFrom_last [where apiCall = apiCall and calls = calls, OF c e nr] e
      by (simp add: step checkRateLimit_no_calls)
  qed
next
  case (Suc n)
  let ?c = "checkRateLimit cfg clk w"
  let ?w1 = "snd (snd ?c)"
  have lt: "retryCount < MAX_RETRY_ATTEMPTS" and m: "MAX_RETRY_ATTEMPTS - Suc retryCount = n"
    using Suc.prems by auto
  show ?case
  proof (cases "fst ?c")
    case (Inl x)
    have nr: "\<not> (isTransientError x \<and> retryCount < MAX_RETRY_ATTEMPTS)"
      using checkRateLimit_terminal [OF Inl] by simp
    note step = executeLoop_gives_up
      [OF tryBlock_refused [where apiCall = apiCall and calls = calls, OF Inl] nr]
    show ?thesis
      using limiterAdmitsFrom_refused [OF Inl, of apiCall retryCount calls]
      by (simp add: step checkRateLimit_no_calls)
  next
    case (Inr u)
    then have c: "fst ?c = Inr ()" by simp
    obtain error where e: "apiCall calls = Inl error" and tr: "isTransientError error"
      using at unfolding alwaysTransient_def by blast
    note t = tryBlock_throwing [where apiCall = apiCall and calls = calls, OF c e]
    show ?thesis
    proof (cases "isRateLimitError error")
      case False
      note step = executeLoop_backs_off [OF t tr lt False]
      note adm = limiterAdmitsFrom_backs_off [where apiCall = apiCall and calls = calls, OF c e tr lt False]
      show ?thesis
        using Suc.IH [OF m, of "Suc calls" ?w1]
        by (simp add: step adm prependEvents_parts checkRateLimit_no_calls)
    next
      case True
      let ?h = "handleRateLimitExceeded cfg clk (retryAfterOf error) ?w1"
      obtain r3 evs3 w3 where h3: "?h = (r3, evs3, w3)"
        by (cases ?h) auto
      have n3: "filter isApiCall evs3 = []"
        using handleRateLimitExceeded_no_calls [of cfg clk "retryAfterOf error" ?w1] h3
        by simp
      show ?thesis
      proof (cases r3)
        case (Inl x)
        with h3 have hx: "?h = (Inl x, evs3, w3)" and hf: "fst ?h = Inl x" by simp_all
        note step = executeLoop_quota_refused [OF t tr lt True hx]
        show ?thesis
          using limiterAdmitsFrom_quota_refused [where apiCall = apiCall and calls = calls, OF c e tr lt True hf] n3
          by (simp add: step checkRateLimit_no_calls)
      next
        case (Inr u3)
        with h3 have hx: "?h = (Inr u3, evs3, w3)" and hf: "fst ?h = Inr ()" by simp_all
        note step = executeLoop_quota_waits [OF t tr lt True hx]
        note adm = limiterAdmitsFrom_quota_waits [where apiCall = apiCall and calls = calls, OF c e tr lt True hf]
        show ?thesis
          using Suc.IH [OF m, of "Suc calls" w3] n3 h3
          by (simp add: step adm prependEvents_parts checkRateLimit_no_calls)
      qed
    qed
  qed
qed

subsection \<open>Which errors are retried\<close>

lemma isTransientError_fields:
  "isTransientError (ApiError st msg ra sf) \<longleftrightarrow>
     (\<exists>n. st = Some n
        \<and> (500 \<le> n \<or> n = 429
           \<or> (n = 403
               \<and> sublist ''API rate limit exceeded''
                    (case msg of
                       Some m \<Rightarrow> if m = [] then ''GitHub API error'' else m
                     | None \<Rightarrow> ''GitHub API error''))))"
  "\<not> isTransientError (StdError e)"
  "\<not> isTransientError (Primitive s sf)"
  by (cases st; cases msg; simp add: isTransientError_def isRateLimitError_def)
     (simp_all add: isTransientError_def isRateLimitError_def)

lemma checkRateLimit_no_call_event:
  "ApiCall k \<notin> set (fst (snd (checkRateLimit cfg clk w)))"
  by (simp add: checkRateLimit_def dateNow_def Let_def)

lemma executeLoop_events_start:
  "\<exists>rest. fst (snd (executeLoop cfg clk operationName apiCall retryCount calls w))
            = fst (snd (tryBlock cfg clk apiCall calls w)) @ rest"
proof -
  obtain r evs calls1 w1 where t: "tryBlock cfg clk apiCall calls w = (r, evs, calls1, w1)"
    by (cases "tryBlock cfg clk apiCall calls w") auto
  show ?thesis
  proof (cases r)
    case (Inr resp)
    with t show ?thesis by (simp add: executeLoop_returns)
  next
    case (Inl error)
    with t have t': "tryBlock cfg clk apiCall calls w = (Inl error, evs, calls1, w1)" by simp
    show ?thesis
    proof (cases "isTransientError error \<and> retryCount < MAX_RETRY_ATTEMPTS")
      case False
      with t' show ?thesis by (simp add: executeLoop_gives_up)
    next
      case True
      then have tr: "isTransientError error" and lt: "retryCount < MAX_RETRY_ATTEMPTS"
        by simp_all
      show ?thesis
      proof (cases "isRateLimitError error")
        case False
        show ?thesis
          by (simp add: executeLoop_backs_off [OF t' tr lt False] prependEvents_parts t')
      next
        case rl: True
        obtain r3 evs3 w3 where
          h: "handleRateLimitExceeded cfg clk (retryAfterOf error) w1 = (r3, evs3, w3)"
          by (cases "handleRateLimitExceeded cfg clk (retryAfterOf error) w1") auto
        show ?thesis
        proof (cases r3)
          case (Inl x)
          with h have h': "handleRateLimitExceeded cfg clk (retryAfterOf error) w1
                             = (Inl x, evs3, w3)" by simp
          show ?thesis
            by (simp add: executeLoop_quota_refused [OF t' tr lt rl h'] t')
        next
          case (Inr u)
          with h have h': "handleRateLimitExceeded cfg clk (retryAfterOf error) w1
                             = (Inr u, evs3, w3)" by simp
          show ?thesis
            by (simp add: executeLoop_quota_waits [OF t' tr lt rl h'] prependEvents_parts t')
        qed
      qed
    qed
  qed
qed

lemma executeLoop_invokes:
  assumes "limiterAdmitsFrom cfg clk apiCall retryCount calls w"
  shows "ApiCall calls
           \<in> set (fst (snd (executeLoop cfg clk operationName apiCall retryCount calls w)))"
proof -
  have c: "fst (checkRateLimit cfg clk w) = Inr ()"
    using assms by (rule limiterAdmitsFrom_check)
  obtain rest where
    "fst (snd (executeLoop cfg clk operationName apiCall retryCount calls w))
       = fst (snd (tryBlock cfg clk apiCall calls w)) @ rest"
    using executeLoop_events_start by blast
  then show ?thesis
    using tryBlock_invokes [OF c, of calls apiCall] by simp
qed

text \<open>
  When the first invocation throws and the limiter admits the call, the call is invoked
  a second time exactly if the error is transient.
\<close>

lemma executeWithRateLimiting_retries_iff:
  assumes e: "apiCall 0 = Inl error" and adm: "limiterAdmits cfg clk apiCall w"
  shows "ApiCall 1 \<in> set (fst (snd (executeWithRateLimiting cfg clk operationName apiCall w)))
           \<longleftrightarrow> isTransientError error"
proof -
  let ?c = "checkRateLimit cfg clk w"
  let ?w1 = "snd (snd ?c)"
  from adm have adm0: "limiterAdmitsFrom cfg clk apiCall 0 0 w"
    by (simp add: limiterAdmits_def)
  then have c: "fst ?c = Inr ()" by (rule limiterAdmitsFrom_check)
  note t = tryBlock_throwing [where apiCall = apiCall and calls = 0, OF c e]
  have lt: "0 < MAX_RETRY_ATTEMPTS" by (simp add: MAX_RETRY_ATTEMPTS_def)
  show ?thesis
  proof (cases "isTransientError error")
    case False
    then have nr: "\<not> (isTransientError error \<and> 0 < MAX_RETRY_ATTEMPTS)" by simp
    show ?thesis
      using False
      by (simp add: executeWithRateLimiting_def executeLoop_gives_up [OF t nr]
            checkRateLimit_no_call_event)
  next
    case tr: True
    show ?thesis
    proof (cases "isRateLimitError error")
      case False
      have "limiterAdmitsFrom cfg clk apiCall (Suc 0) (Suc 0) ?w1"
        using adm0 limiterAdmitsFrom_backs_off [where apiCall = apiCall and calls = 0, OF c e tr lt False] by simp
      then have "ApiCall (Suc 0)
          \<in> set (fst (snd (executeLoop cfg clk operationName apiCall (Suc 0) (Suc 0) ?w1)))"
        by (rule executeLoop_invokes)
      then show ?thesis
        using tr
        by (simp add: executeWithRateLimiting_def executeLoop_backs_off [OF t tr lt False]
              prependEvents_parts)
    next
      case rl: True
      let ?h = "handleRateLimitExceeded cfg clk (retryAfterOf error) ?w1"
      obtain r3 evs3 w3 where h3: "?h = (r3, evs3, w3)"
        by (cases ?h) auto
      show ?thesis
      proof (cases r3)
        case (Inl x)
        with h3 have "fst ?h = Inl x" by simp
        from limiterAdmitsFrom_quota_refused [where apiCall = apiCall and calls = 0, OF c e tr lt rl this] adm0
        show ?thesis by simp
      next
        case (Inr u3)
        with h3 have hx: "?h = (Inr u3, evs3, w3)" and hf: "fst ?h = Inr ()" by simp_all
        have "limiterAdmitsFrom cfg clk apiCall (Suc 0) (Suc 0) w3"
          using adm0 limiterAdmitsFrom_quota_waits [where apiCall = apiCall and calls = 0, OF c e tr lt rl hf] h3 by simp
        then have "ApiCall (Suc 0)
            \<in> set (fst (snd (executeLoop cfg clk operationName apiCall (Suc 0) (Suc 0) w3)))"
          by (rule executeLoop_invokes)
        then show ?thesis
          using tr
          by (simp add: executeWithRateLimiting_def
                executeLoop_quota_waits [OF t tr lt rl hx] prependEvents_parts)
      qed
    qed
  qed
qed

text \<open>
  When the first invocation throws a terminal error, nothing follows it: the executor
  throws what \<open>handleGitHubApiError\<close> makes of the error.
\<close>

lemma executeWithRateLimiting_terminal_error:
  assumes c: "fst (checkRateLimit cfg clk w) = Inr ()" and e: "apiCall 0 = Inl error"
      and n: "\<not> isTransientError error"
  shows "executeWithRateLimiting cfg clk operationName apiCall w
           = (Inl (handleGitHubApiError error operationName),
              fst (snd (checkRateLimit cfg clk w)) @ [ApiCall 0],
              snd (snd (checkRateLimit cfg clk w)))"
proof -
  from n have n': "\<not> (isTransientError error \<and> 0 < MAX_RETRY_ATTEMPTS)" by simp
  show ?thesis
    unfolding executeWithRateLimiting_def
    by (rule executeLoop_gives_up
          [OF tryBlock_throwing [where apiCall = apiCall and calls = 0, OF c e] n'])
qed

subsection \<open>The backoff delays of the executor\<close>
subsection \<open>The backoff delays of the executor\<close>

text \<open>
  When every invocation throws a transient error other than a quota error and the
  limiter admits every attempt, the backoff before retry \<open>i\<close> is
  \<open>BASE_RETRY_DELAY_MS * 2 ^ i\<close>, for \<open>i\<close> from 1 to \<open>MAX_RETRY_ATTEMPTS\<close>.
\<close>

lemma executeLoop_backoff_delays:
  assumes "alwaysServerFault apiCall"
  shows "MAX_RETRY_ATTEMPTS - retryCount = n \<Longrightarrow>
         limiterAdmitsFrom cfg clk apiCall retryCount calls w \<Longrightarrow>
         timersOf RetryBackoff
           (fst (snd (executeLoop cfg clk operationName apiCall retryCount calls w)))
           = map (\<lambda>i. Num (BASE_RETRY_DELAY_MS * 2 ^ i))
               [Suc retryCount ..< Suc MAX_RETRY_ATTEMPTS]"
proof (induction n arbitrary: retryCount calls w)
  case 0
  obtain error where e: "apiCall calls = Inl error"
    using assms unfolding alwaysServerFault_def by blast
  have c: "fst (checkRateLimit cfg clk w) = Inr ()"
    using "0.prems"(2) by (rule limiterAdmitsFrom_check)
  have ge: "MAX_RETRY_ATTEMPTS \<le> retryCount"
    using "0.prems"(1) by simp
  then have nr: "\<not> (isTransientError error \<and> retryCount < MAX_RETRY_ATTEMPTS)"
    by simp
  note step = executeLoop_gives_up
    [OF tryBlock_throwing [where apiCall = apiCall and calls = calls, OF c e] nr]
  show ?case
    using ge by (simp add: step timersOf_append checkRateLimit_other_timers)
next
  case (Suc n)
  obtain error where e: "apiCall calls = Inl error" "isTransientError error"
      "\<not> isRateLimitError error"
    using assms unfolding alwaysServerFault_def by blast
  have c: "fst (checkRateLimit cfg clk w) = Inr ()"
    using Suc.prems(2) by (rule limiterAdmitsFrom_check)
  have lt: "retryCount < MAX_RETRY_ATTEMPTS" and m: "MAX_RETRY_ATTEMPTS - Suc retryCount = n"
    using Suc.prems(1) by auto
  let ?w1 = "snd (snd (checkRateLimit cfg clk w))"
  note t = tryBlock_throwing [where apiCall = apiCall and calls = calls, OF c e(1)]
  have a1: "limiterAdmitsFrom cfg clk apiCall (Suc retryCount) (Suc calls) ?w1"
    using Suc.prems(2) limiterAdmitsFrom_backs_off [where apiCall = apiCall and calls = calls, OF c e(1) e(2) lt e(3)] by simp
  note step = executeLoop_backs_off [OF t e(2) lt e(3)]
  have u: "[Suc retryCount ..< Suc MAX_RETRY_ATTEMPTS]
             = Suc retryCount # [Suc (Suc retryCount) ..< Suc MAX_RETRY_ATTEMPTS]"
    using lt by (simp add: upt_conv_Cons)
  show ?case
    using Suc.IH [OF m a1]
    by (simp only: step prependEvents_parts timersOf_append u)
       (simp add: checkRateLimit_other_timers)
qed

lemma executeWithRateLimiting_delays_law:
  assumes "alwaysServerFault apiCall" and "limiterAdmits cfg clk apiCall w"
  shows "timersOf RetryBackoff
           (fst (snd (executeWithRateLimiting cfg clk operationName apiCall w)))
           = [Num 2000, Num 4000, Num 8000]"
proof -
  have "[Suc 0 ..< Suc MAX_RETRY_ATTEMPTS] = [1, 2, 3]"
    by (simp add: MAX_RETRY_ATTEMPTS_def upt_conv_Cons)
  moreover have "limiterAdmitsFrom cfg clk apiCall 0 0 w"
    using assms(2) by (simp add: limiterAdmits_def)
  ultimately show ?thesis
    using executeLoop_backoff_delays [OF assms(1) refl, where retryCount = 0 and calls = 0
            and operationName = operationName and cfg = cfg and clk = clk and w = w]
    by (simp add: executeWithRateLimiting_def BASE_RETRY_DELAY_MS_def)
qed

subsection \<open>The quota state across a call of the executor\<close>

lemma updateRateLimitFromHeaders_info_indep:
  "rateLimitInfo w1 = rateLimitInfo w \<Longrightarrow>
   rateLimitInfo (snd (updateRateLimitFromHeaders hs w1))
     = rateLimitInfo (snd (updateRateLimitFromHeaders hs w))"
  by (simp add: updateRateLimitFromHeaders_def safelyUpdateRateLimitInfo_def
           split: option.splits)

lemma infoAfter_indep:
  assumes "rateLimitInfo w1 = rateLimitInfo w"
  shows "infoAfter r w1 = infoAfter r w"
proof (cases r)
  case (Inl error)
  with assms show ?thesis by (simp add: infoAfter_def)
next
  case (Inr resp)
  obtain x hdrs where rs: "resp = Response x hdrs" by (cases resp) auto
  show ?thesis
  proof (cases hdrs)
    case None
    with Inr rs assms show ?thesis by (simp add: infoAfter_def)
  next
    case (Some hs)
    with Inr rs updateRateLimitFromHeaders_info_indep [OF assms, of hs]
    show ?thesis by (simp add: infoAfter_def)
  qed
qed

lemma infoAfter_Inl: "infoAfter (Inl error) w = rateLimitInfo w"
  by (simp add: infoAfter_def)

lemma tryBlock_info:
  assumes "tryBlock cfg clk apiCall calls w = (r, evs, calls1, w1)"
  shows "rateLimitInfo w1 = infoAfter r w"
proof -
  obtain c ev0 w0 where chk: "checkRateLimit cfg clk w = (c, ev0, w0)"
    by (cases "checkRateLimit cfg clk w") auto
  have w0i: "rateLimitInfo w0 = rateLimitInfo w"
    using checkRateLimit_info [of cfg clk w] chk by simp
  show ?thesis
  proof (cases c)
    case (Inl err)
    with chk have "tryBlock cfg clk apiCall calls w = (Inl err, ev0, calls, w0)"
      by (simp add: tryBlock_def)
    with assms have "r = Inl err" and "w1 = w0" by simp_all
    with w0i show ?thesis by (simp add: infoAfter_Inl)
  next
    case (Inr u)
    show ?thesis
    proof (cases "apiCall calls")
      case (Inl error)
      with chk Inr have "tryBlock cfg clk apiCall calls w
                           = (Inl error, ev0 @ [ApiCall calls], Suc calls, w0)"
        by (simp add: tryBlock_def)
      with assms have "r = Inl error" and "w1 = w0" by simp_all
      with w0i show ?thesis by (simp add: infoAfter_Inl)
    next
      case resp: (Inr resp)
      obtain x hdrs where rs: "resp = Response x hdrs" by (cases resp) auto
      show ?thesis
      proof (cases hdrs)
        case None
        with chk Inr resp rs have "tryBlock cfg clk apiCall calls w
            = (Inr (Response x None), ev0 @ [ApiCall calls], Suc calls, w0)"
          by (simp add: tryBlock_def)
        with assms have "r = Inr (Response x None)" and "w1 = w0" by simp_all
        with w0i show ?thesis by (simp add: infoAfter_def)
      next
        case (Some hs)
        obtain evs2 w2 where u: "updateRateLimitFromHeaders hs w0 = (evs2, w2)"
          by (cases "updateRateLimitFromHeaders hs w0") auto
        have "rateLimitInfo w2 = rateLimitInfo (snd (updateRateLimitFromHeaders hs w))"
          using updateRateLimitFromHeaders_info_indep [OF w0i, of hs] u by simp
        moreover from chk Inr resp rs Some u have "tryBlock cfg clk apiCall calls w
            = (Inr (Response x (Some hs)), ev0 @ [ApiCall calls] @ evs2, Suc calls, w2)"
          by (simp add: tryBlock_def)
        with assms have "r = Inr (Response x (Some hs))" and "w1 = w2" by simp_all
        ultimately show ?thesis by (simp add: infoAfter_def)
      qed
    qed
  qed
qed

lemma executeLoop_info:
  "MAX_RETRY_ATTEMPTS - retryCount = n \<Longrightarrow>
   rateLimitInfo (snd (snd (executeLoop cfg clk operationName apiCall retryCount calls w)))
     = infoAfter (fst (executeLoop cfg clk operationName apiCall retryCount calls w)) w"
proof (induction n arbitrary: retryCount calls w)
  case 0
  obtain r evs calls1 w1 where t: "tryBlock cfg clk apiCall calls w = (r, evs, calls1, w1)"
    by (cases "tryBlock cfg clk apiCall calls w") auto
  note ti = tryBlock_info [OF t]
  show ?case
  proof (cases r)
    case (Inr resp)
    with t ti show ?thesis by (simp add: executeLoop_returns)
  next
    case (Inl error)
    have "\<not> (isTransientError error \<and> retryCount < MAX_RETRY_ATTEMPTS)"
      using "0.prems" by simp
    with t ti Inl show ?thesis by (simp add: executeLoop_gives_up infoAfter_Inl)
  qed
next
  case (Suc n)
  obtain r evs calls1 w1 where t: "tryBlock cfg clk apiCall calls w = (r, evs, calls1, w1)"
    by (cases "tryBlock cfg clk apiCall calls w") auto
  note ti = tryBlock_info [OF t]
  have m: "MAX_RETRY_ATTEMPTS - Suc retryCount = n" and lt: "retryCount < MAX_RETRY_ATTEMPTS"
    using Suc.prems by auto
  show ?case
  proof (cases r)
    case (Inr resp)
    with t ti show ?thesis by (simp add: executeLoop_returns)
  next
    case (Inl error)
    with t have t': "tryBlock cfg clk apiCall calls w = (Inl error, evs, calls1, w1)" by simp
    from ti Inl have wi: "rateLimitInfo w1 = rateLimitInfo w" by (simp add: infoAfter_Inl)
    show ?thesis
    proof (cases "isTransientError error")
      case False
      then have "\<not> (isTransientError error \<and> retryCount < MAX_RETRY_ATTEMPTS)" by simp
      with t' wi show ?thesis by (simp add: executeLoop_gives_up infoAfter_Inl)
    next
      case True
      show ?thesis
      proof (cases "isRateLimitError error")
        case False
        note step = executeLoop_backs_off [OF t' True lt False]
        show ?thesis
          using Suc.IH [OF m, of calls1 w1] infoAfter_indep [OF wi]
          by (simp add: step prependEvents_parts)
      next
        case rl: True
        obtain r3 evs3 w3 where
          h: "handleRateLimitExceeded cfg clk (retryAfterOf error) w1 = (r3, evs3, w3)"
          by (cases "handleRateLimitExceeded cfg clk (retryAfterOf error) w1") auto
        have w3i: "rateLimitInfo w3 = rateLimitInfo w"
          using handleRateLimitExceeded_info [of cfg clk "retryAfterOf error" w1] h wi by simp
        show ?thesis
        proof (cases r3)
          case (Inl err)
          with h have h': "handleRateLimitExceeded cfg clk (retryAfterOf error) w1
                             = (Inl err, evs3, w3)" by simp
          show ?thesis
            using w3i by (simp add: executeLoop_quota_refused [OF t' True lt rl h'] infoAfter_Inl)
        next
          case (Inr u)
          with h have h': "handleRateLimitExceeded cfg clk (retryAfterOf error) w1
                             = (Inr u, evs3, w3)" by simp
          note step = executeLoop_quota_waits [OF t' True lt rl h']
          show ?thesis
            using Suc.IH [OF m, of calls1 w3] infoAfter_indep [OF w3i]
            by (simp add: step prependEvents_parts)
        qed
      qed
    qed
  qed
qed

subsection \<open>Events of a cancellable timeout\<close>

lemma cancelled_stays:
  "cancelled t \<Longrightarrow>
   cancelled (timeoutStep e t) \<and> resolveCalls (timeoutStep e t) = resolveCalls t"
  by (cases e) (simp_all add: cancel_def timerElapses_def timerCallback_def)

lemma cancelled_run:
  "cancelled t \<Longrightarrow> resolveCalls (timeoutRun es t) = resolveCalls t"
proof (induction es arbitrary: t)
  case Nil
  then show ?case by simp
next
  case (Cons e es)
  from cancelled_stays [OF Cons.prems, of e] Cons.IH [of "timeoutStep e t"]
  show ?case by simp
qed

lemma spent_stays:
  "\<not> timerPending t \<Longrightarrow>
   \<not> timerPending (timeoutStep e t) \<and> resolveCalls (timeoutStep e t) = resolveCalls t"
  by (cases e) (simp_all add: cancel_def timerElapses_def timerCallback_def)

lemma spent_run:
  "\<not> timerPending t \<Longrightarrow> resolveCalls (timeoutRun es t) = resolveCalls t"
proof (induction es arbitrary: t)
  case Nil
  then show ?case by simp
next
  case (Cons e es)
  from spent_stays [OF Cons.prems, of e] Cons.IH [of "timeoutStep e t"]
  show ?case by simp
qed

subsection \<open>Header updates\<close>

lemma updateRateLimitFromHeaders_complete:
  assumes "hs ''x-ratelimit-remaining'' = Some r" and "hs ''x-ratelimit-reset'' = Some t"
      and "hs ''x-ratelimit-limit'' = Some l"
  shows "snd (updateRateLimitFromHeaders hs w)
           = w\<lparr>rateLimitInfo := \<lparr> remaining = parseInt r,
                                  resetTime = jsMul (parseInt t) (Num 1000),
                                  limit = parseInt l \<rparr>\<rparr>"
  using assms by (simp add: updateRateLimitFromHeaders_def safelyUpdateRateLimitInfo_def)

lemma updateRateLimitFromHeaders_incomplete:
  assumes "hs ''x-ratelimit-remaining'' = None \<or> hs ''x-ratelimit-reset'' = None
           \<or> hs ''x-ratelimit-limit'' = None"
  shows "updateRateLimitFromHeaders hs w = ([], w)"
  using assms by (auto simp add: updateRateLimitFromHeaders_def split: option.splits)

lemma applyUpdates_last:
  "hss \<noteq> [] \<Longrightarrow> \<forall>hs \<in> set hss. completeTriple hs \<Longrightarrow>
   rateLimitInfo (applyUpdates hss w)
     = rateLimitInfo (snd (updateRateLimitFromHeaders (last hss) w'))"
proof (induction hss arbitrary: w)
  case Nil
  then show ?case by simp
next
  case (Cons hs hss)
  show ?case
  proof (cases "hss = []")
    case True
    from Cons.prems have "completeTriple hs" by simp
    then obtain r t l where "hs ''x-ratelimit-remaining'' = Some r"
        "hs ''x-ratelimit-reset'' = Some t" "hs ''x-ratelimit-limit'' = Some l"
      by (auto simp: completeTriple_def)
    then show ?thesis
      using True by (simp add: updateRateLimitFromHeaders_complete)
  next
    case False
    then show ?thesis using Cons by simp
  qed
qed

subsection \<open>The mutex is released on every path of the limiter\<close>

lemma checkRateLimit_releasesOnce:
  "releasesOnce (fst (snd (checkRateLimit cfg clk w)))"
  by (simp add: checkRateLimit_def releasesOnce_def dateNow_def Let_def)

lemma handleRateLimitExceeded_releasesOnce:
  "releasesOnce (fst (snd (handleRateLimitExceeded cfg clk ra w)))"
  by (simp add: handleRateLimitExceeded_def releasesOnce_def Let_def
           split: option.splits prod.splits)

lemma safelyUpdateRateLimitInfo_releasesOnce:
  "releasesOnce (fst (safelyUpdateRateLimitInfo newInfo w))"
  by (simp add: safelyUpdateRateLimitInfo_def releasesOnce_def)

text \<open>
  One task that calls \<open>acquire\<close> while another holds the mutex has no job to run until
  the holder releases; after the release it enters alone.
\<close>

lemma AsyncMutex_handover:
  "mutexRun [CallAcquire 0, RunMicrotask, RunMicrotask, CallAcquire 1, RunMicrotask]
     newAsyncMutex = None"
  "map_option inCriticalSection
     (mutexRun [CallAcquire 0, RunMicrotask, RunMicrotask, CallAcquire 1, Release 0,
                RunMicrotask, RunMicrotask] newAsyncMutex) = Some [1]"
  by (simp_all add: newAsyncMutex_def callAcquire_def runMicrotask_def releaseFn_def
        inCriticalSection_def)

subsection \<open>Evaluation of \<open>parseInt\<close> on the strings used below\<close>

lemma parseInt_examples:
  "parseInt ''5'' = Num 5"
  "parseInt ''500'' = Num 500"
  "parseInt ''abc'' = NaN"
  "parseInt ''soon'' = NaN"
  "parseInt '''' = NaN"
  "parseInt ''4999'' = Num 4999"
  "parseInt ''5000'' = Num 5000"
  "parseInt ''1700000000'' = Num 1700000000"
  "parseInt ''10'' = Num 10"
  "parseInt ''10000000000000'' = Num 10000000000000"
  by (simp_all add: parseInt_def isWhiteSpace_def isDigit_def digitsValue_def)

subsection \<open>The delays of the general retry helper\<close>

lemma withRetry_delays:
  "timersOf RetryBackoff
     (snd (withRetry 3 BASE_RETRY_DELAY_MS retryAlways (alwaysThrows serverError) 0 None))
     = [Num BASE_RETRY_DELAY_MS, Num (BASE_RETRY_DELAY_MS * 2), Num (BASE_RETRY_DELAY_MS * 4)]"
  by (simp add: withRetry.simps alwaysThrows_def retryAlways_def BASE_RETRY_DELAY_MS_def)

text \<open>
  With rate limiting disabled, and a call that throws no quota error, the limiter never
  fails fast.
\<close>

lemma limiterAdmitsFrom_disabled:
  assumes "\<not> enabled cfg"
      and "\<And>k error. apiCall k = Inl error \<Longrightarrow> \<not> isRateLimitError error"
  shows "limiterAdmitsFrom cfg clk apiCall retryCount calls w"
proof (induction "MAX_RETRY_ATTEMPTS - retryCount" arbitrary: retryCount calls w)
  case 0
  then show ?case
    using assms by (subst limiterAdmitsFrom.simps) (simp add: checkRateLimit_def split: sum.splits)
next
  case (Suc n)
  have "limiterAdmitsFrom cfg clk apiCall (Suc retryCount) (Suc calls) v" for v
    using Suc by simp
  then show ?case
    using assms by (subst limiterAdmitsFrom.simps) (simp add: checkRateLimit_def split: sum.splits)
qed

lemma limiterAdmits_disabled:
  assumes "\<not> enabled cfg" and "alwaysServerFault apiCall"
  shows "limiterAdmits cfg clk apiCall w"
  unfolding limiterAdmits_def
proof (rule limiterAdmitsFrom_disabled [OF assms(1)])
  fix k error
  assume "apiCall k = Inl error"
  with assms(2) show "\<not> isRateLimitError error"
    unfolding alwaysServerFault_def by (metis sum.inject(1))
qed

section \<open>The properties\<close>

subsection \<open>The predictive check of the rate limiter\<close>

text \<open>
  For every quota state, configuration and clock, \<open>checkRateLimit\<close> returns without
  setting a timer when rate limiting is disabled or \<open>remaining > minRemaining\<close>. When
  \<open>remaining \<le> minRemaining\<close>, with \<open>waitTime = resetTime - now + resetBufferMs\<close>: it
  returns without a timer if \<open>waitTime \<le> 0\<close>; it sets exactly one timer, of duration
  \<open>waitTime\<close>, and then returns if \<open>0 < waitTime \<le> 60000\<close>; it throws without
  setting a timer if \<open>waitTime > 60000\<close>, and what it throws is a standardized error of
  category \<open>GITHUB_API\<close> whenever the reset time is a valid time value (a timestamp
  that a \<open>Date\<close> can hold). The comparisons are those of the language, so none of the
  cases applies to a \<open>NaN\<close>.
\<close>

lemma checkRateLimit_blocking:
  "(let info = rateLimitInfo w;
        waitTime = jsAdd (jsSub (resetTime info) (Num (clk (clockReads w))))
                         (Num (resetBufferMs cfg));
        res = checkRateLimit cfg clk w;
        timers = filter isTimer (fst (snd res))
    in (\<not> enabled cfg \<or> jsGt (remaining info) (Num (minRemaining cfg))
          \<longrightarrow> fst res = Inr () \<and> timers = [])
     \<and> (enabled cfg \<and> jsLe (remaining info) (Num (minRemaining cfg))
          \<and> jsLe waitTime (Num 0)
          \<longrightarrow> fst res = Inr () \<and> timers = [])
     \<and> (enabled cfg \<and> jsLe (remaining info) (Num (minRemaining cfg))
          \<and> jsGt waitTime (Num 0) \<and> jsLe waitTime (Num 60000)
          \<longrightarrow> fst res = Inr () \<and> timers = [SetTimeout CheckWait waitTime])
     \<and> (enabled cfg \<and> jsLe (remaining info) (Num (minRemaining cfg))
          \<and> jsGt waitTime (Num 60000)
          \<longrightarrow> (\<exists>x. fst res = Inl x) \<and> timers = []
              \<and> (validTimeValue (resetTime info)
                   \<longrightarrow> (\<exists>e. fst res = Inl (StdError e)
                            \<and> errorCategory e = CATEGORY_GITHUB_API))))"
proof (cases "remaining (rateLimitInfo w)")
  case NaN
  then show ?thesis
    by (simp add: checkRateLimit_def dateNow_def Let_def)
next
  case r: (Num r)
  show ?thesis
  proof (cases "resetTime (rateLimitInfo w)")
    case NaN
    with r show ?thesis
      by (simp add: checkRateLimit_def dateNow_def Let_def)
  next
    case (Num t)
    with r show ?thesis
      using rateLimitFailure_category
              [of "Num t" "''GitHub API rate limit exceeded, cannot proceed with request''"]
      by (simp add: checkRateLimit_def dateNow_def Let_def)
  qed
qed

lemma checkRateLimit_blocking_examples:
  "jsGt (remaining (rateLimitInfo worldFresh)) (Num (minRemaining cfgOn))
   \<and> checkRateLimit cfgOn (fixedClock 1000) worldFresh
       = (Inr (), [MutexAcquire, MutexRelease], worldFresh\<lparr>clockReads := 1\<rparr>)
   \<and> enabled cfgOn \<and> jsLe (remaining (rateLimitInfo worldLow)) (Num (minRemaining cfgOn))
   \<and> filter isTimer (fst (snd (checkRateLimit cfgOn (fixedClock 4000) worldLow))) = []
   \<and> fst (checkRateLimit cfgOn (fixedClock 1000) worldLow) = Inr ()
   \<and> filter isTimer (fst (snd (checkRateLimit cfgOn (fixedClock 1000) worldLow)))
       = [SetTimeout CheckWait (Num 2500)]
   \<and> jsLe (remaining (rateLimitInfo worldExhausted)) (Num (minRemaining cfgOn))
   \<and> validTimeValue (resetTime (rateLimitInfo worldExhausted))
   \<and> fst (checkRateLimit cfgOn (fixedClock 1000) worldExhausted)
       = Inl (StdError (githubApiErrorObject
               ''GitHub API rate limit exceeded, cannot proceed with request''))"
  using checkRateLimit_blocking [of worldFresh "fixedClock 1000" cfgOn]
        checkRateLimit_blocking [of worldLow "fixedClock 4000" cfgOn]
        checkRateLimit_blocking [of worldLow "fixedClock 1000" cfgOn]
        checkRateLimit_blocking [of worldExhausted "fixedClock 1000" cfgOn]
  by (simp add: Let_def cfgOn_def worldFresh_def worldLow_def worldExhausted_def fixedClock_def
        checkRateLimit_def dateNow_def validTimeValue_def rateLimitFailure_def
        createGithubApiError_def)

text \<open>
  C1. The claim is that, for every rate-limit state, \<open>checkRateLimit\<close> fails fast with an
  error of category \<open>GITHUB_API\<close> when \<open>waitTime > 60000\<close>. The code evaluates the
  context of that error before it creates it, and the context holds
  \<open>new Date(resetTime).toISOString()\<close>, which throws a \<open>RangeError\<close> on a reset time
  beyond the range of \<open>Date\<close>. A response whose headers give the reset as
  10000000000000 seconds leaves the state with \<open>resetTime = 1e16\<close>; the limiter is
  enabled, few requests remain and the wait is above 60000, and \<open>checkRateLimit\<close> throws
  the \<open>RangeError\<close>, which is no standardized error and has no category. (The rest of
  the claim holds, and this part too when the reset time is a valid time value:
  \<open>checkRateLimit_blocking\<close>.)
\<close>

theorem checkRateLimit_fail_fast_RangeError:
  "rateLimitInfo (snd (updateRateLimitFromHeaders headersBeyondDate worldFresh))
     = rateLimitInfo worldBeyondDate
   \<and> enabled cfgOn
   \<and> jsLe (remaining (rateLimitInfo worldBeyondDate)) (Num (minRemaining cfgOn))
   \<and> jsGt (jsAdd (jsSub (resetTime (rateLimitInfo worldBeyondDate))
                        (Num (fixedClock 1000 (clockReads worldBeyondDate))))
                 (Num (resetBufferMs cfgOn)))
           (Num 60000)
   \<and> checkRateLimit cfgOn (fixedClock 1000) worldBeyondDate
       = (Inl rangeError, [MutexAcquire, MutexRelease], worldBeyondDate\<lparr>clockReads := 1\<rparr>)
   \<and> rangeError = ApiError None (Some ''Invalid time value'') None None"
  by (simp add: updateRateLimitFromHeaders_def safelyUpdateRateLimitInfo_def
        headersBeyondDate_def worldFresh_def worldBeyondDate_def parseInt_examples
        checkRateLimit_def dateNow_def cfgOn_def fixedClock_def rateLimitFailure_def
        rangeError_def)

subsection \<open>Retries of the executor\<close>

text \<open>
  C2, as stated, fails. A quota error (status 403, \<open>API rate limit exceeded\<close>) is a
  transient error; a call that always throws one with \<open>retry-after: 500\<close> is invoked
  once, because the wait exceeds the ceiling of \<open>handleRateLimitExceeded\<close> and the
  error of the limiter leaves the executor. And the limiter is consulted inside the
  \<open>try\<close> before every attempt, where its fail-fast error is terminal: with few requests
  left and the reset an hour away, a call that always throws status 500 is never invoked.
\<close>

theorem executeWithRateLimiting_attempts_counterexample:
  "isTransientError (quotaError (Some ''500''))
   \<and> filter isApiCall (fst (snd (executeWithRateLimiting cfgOn (fixedClock 1000) ''op''
         (alwaysThrows (quotaError (Some ''500''))) worldFresh))) = [ApiCall 0]
   \<and> isTransientError serverError
   \<and> filter isApiCall (fst (snd (executeWithRateLimiting cfgOn (fixedClock 1000) ''op''
         (alwaysThrows serverError) worldExhausted))) = []"
  by (simp add: isTransientError_def serverError_def quotaError_def
        executeWithRateLimiting_def executeLoop.simps tryBlock_def checkRateLimit_def
        handleRateLimitExceeded_def dateNow_def cfgOn_def worldExhausted_def worldFresh_def
        fixedClock_def alwaysThrows_def isRateLimitError_def rateLimitFailure_def
        createGithubApiError_def MAX_RETRY_ATTEMPTS_def parseInt_examples)

text \<open>
  C2, amended. If every invocation of the call throws a transient error, the executor
  invokes the call exactly 4 times (\<open>MAX_RETRY_ATTEMPTS = 3\<close> retries after the first
  attempt) if and only if the limiter never fails fast during the call, that is, every
  \<open>checkRateLimit\<close> before an attempt and every \<open>handleRateLimitExceeded\<close> after a quota
  error returns. It then throws what \<open>handleGitHubApiError\<close> makes of the fourth error:
  a standardized error of category \<open>GITHUB_API\<close> whenever that error can be serialized
  for the error log. The retry counter belongs to one call: for a second call of the
  executor, started in the world the first one left, the same holds again.
\<close>

theorem executeWithRateLimiting_attempts:
  assumes "alwaysTransient apiCall"
  shows "(let r1 = executeWithRateLimiting cfg clk operationName apiCall w;
              w1 = snd (snd r1);
              r2 = executeWithRateLimiting cfg clk operationName apiCall w1
          in (limiterAdmits cfg clk apiCall w
                \<longleftrightarrow> length (filter isApiCall (fst (snd r1))) = 4)
           \<and> (limiterAdmits cfg clk apiCall w1
                \<longleftrightarrow> length (filter isApiCall (fst (snd r2))) = 4)
           \<and> (limiterAdmits cfg clk apiCall w
                \<longrightarrow> (\<exists>error. apiCall 3 = Inl error
                       \<and> fst r1 = Inl (handleGitHubApiError error operationName)
                       \<and> (stringifyFailure error = None
                            \<longrightarrow> (\<exists>e. fst r1 = Inl (StdError e)
                                     \<and> errorCategory e = CATEGORY_GITHUB_API)))))"
proof -
  have m: "MAX_RETRY_ATTEMPTS - 0 = 3"
    by (simp add: MAX_RETRY_ATTEMPTS_def)
  have run: "(limiterAdmits cfg clk apiCall v
                \<longleftrightarrow> length (filter isApiCall
                      (fst (snd (executeWithRateLimiting cfg clk operationName apiCall v)))) = 4)
           \<and> (limiterAdmits cfg clk apiCall v
                \<longrightarrow> (\<exists>error. apiCall 3 = Inl error
                       \<and> fst (executeWithRateLimiting cfg clk operationName apiCall v)
                           = Inl (handleGitHubApiError error operationName)))" for v
    using executeLoop_always_transient [OF assms m, of cfg clk 0 v operationName]
    by (auto simp add: limiterAdmits_def executeWithRateLimiting_def)
  have cat: "stringifyFailure error = None
               \<longrightarrow> (\<exists>e. handleGitHubApiError error operationName = StdError e
                        \<and> errorCategory e = CATEGORY_GITHUB_API)" for error
    using handleGitHubApiError_category [of error operationName] by blast
  show ?thesis
    unfolding Let_def
    using run [of w]
          run [of "snd (snd (executeWithRateLimiting cfg clk operationName apiCall w))"] cat
    by (metis sum.inject(1))
qed

theorem executeWithRateLimiting_attempts_witness:
  "alwaysTransient (alwaysThrows serverError)
   \<and> limiterAdmits cfgOn tickingClock (alwaysThrows serverError) worldLow
   \<and> length (filter isApiCall (fst (snd (executeWithRateLimiting cfgOn tickingClock ''op''
         (alwaysThrows serverError) worldLow)))) = 4
   \<and> stringifyFailure serverError = None
   \<and> fst (executeWithRateLimiting cfgOn tickingClock ''op'' (alwaysThrows serverError) worldLow)
       = Inl (StdError (githubApiErrorObject
               ''GitHub API error in op: Internal Server Error''))
   \<and> alwaysTransient (alwaysThrows (quotaError (Some ''5'')))
   \<and> limiterAdmits cfgOn tickingClock (alwaysThrows (quotaError (Some ''5''))) worldFresh
   \<and> length (filter isApiCall (fst (snd (executeWithRateLimiting cfgOn tickingClock ''op''
         (alwaysThrows (quotaError (Some ''5''))) worldFresh)))) = 4
   \<and> fst (executeWithRateLimiting cfgOn tickingClock ''op''
         (alwaysThrows (quotaError (Some ''5''))) worldFresh)
       = Inl (StdError (githubApiErrorObject
               ''GitHub API error in op: API rate limit exceeded for user''))"
proof -
  have a: "alwaysTransient (alwaysThrows serverError)"
    by (simp add: alwaysTransient_def alwaysThrows_def serverError_def isTransientError_def)
  have adm: "limiterAdmits cfgOn tickingClock (alwaysThrows serverError) worldLow"
    by (simp add: limiterAdmits_def limiterAdmitsFrom.simps checkRateLimit_def dateNow_def
          cfgOn_def worldLow_def tickingClock_def alwaysThrows_def serverError_def
          isTransientError_def isRateLimitError_def MAX_RETRY_ATTEMPTS_def)
  have s: "stringifyFailure serverError = None"
    by (simp add: serverError_def)
  have h: "handleGitHubApiError serverError ''op''
             = StdError (githubApiErrorObject ''GitHub API error in op: Internal Server Error'')"
    by (simp add: handleGitHubApiError_serializable s) (simp add: serverError_def)
  have q: "isRateLimitError (quotaError (Some ''5''))"
    by (simp add: quotaError_def isRateLimitError_def)
  have aq: "alwaysTransient (alwaysThrows (quotaError (Some ''5'')))"
    by (simp add: alwaysTransient_def alwaysThrows_def isTransientError_def q)
  have admq: "limiterAdmits cfgOn tickingClock (alwaysThrows (quotaError (Some ''5''))) worldFresh"
    by (simp add: limiterAdmits_def limiterAdmitsFrom.simps checkRateLimit_def dateNow_def
          handleRateLimitExceeded_def parseInt_examples
          cfgOn_def worldFresh_def tickingClock_def alwaysThrows_def quotaError_def
          isTransientError_def isRateLimitError_def MAX_RETRY_ATTEMPTS_def)
  have sq: "stringifyFailure (quotaError (Some ''5'')) = None"
    by (simp add: quotaError_def)
  have hq: "handleGitHubApiError (quotaError (Some ''5'')) ''op''
             = StdError (githubApiErrorObject
                 ''GitHub API error in op: API rate limit exceeded for user'')"
    by (simp add: handleGitHubApiError_serializable sq) (simp add: quotaError_def)
  show ?thesis
    using a adm s h aq admq hq
      executeWithRateLimiting_attempts [OF a, of cfgOn tickingClock "''op''" worldLow]
      executeWithRateLimiting_attempts [OF aq, of cfgOn tickingClock "''op''" worldFresh]
    by (simp add: Let_def alwaysThrows_def)
qed

text \<open>
  C3. The claim is that the three delays between the attempts of an always-failing
  status-500 call are \<open>baseDelay\<close>, \<open>baseDelay * 2\<close>, \<open>baseDelay * 4\<close>. The executor
  increments \<open>retryCount\<close> before it computes \<open>BASE_RETRY_DELAY_MS * 2 ^ retryCount\<close>,
  so the delays it waits are \<open>baseDelay * 2\<close>, \<open>baseDelay * 4\<close>, \<open>baseDelay * 8\<close>:
  2000, 4000 and 8000 ms, and so for every call that keeps throwing such an error
  (\<open>executeWithRateLimiting_delays_law\<close>). The retry helper \<open>withRetry\<close> of the promise
  utilities, whose exponent starts at 0, waits the claimed sequence (\<open>withRetry_delays\<close>).
\<close>

theorem executeWithRateLimiting_backoff_delays:
  "timersOf RetryBackoff (fst (snd (executeWithRateLimiting cfgOff (fixedClock 1000) ''op''
         (alwaysThrows serverError) worldFresh)))
     = [Num (BASE_RETRY_DELAY_MS * 2), Num (BASE_RETRY_DELAY_MS * 4),
        Num (BASE_RETRY_DELAY_MS * 8)]
   \<and> timersOf RetryBackoff (fst (snd (executeWithRateLimiting cfgOff (fixedClock 1000) ''op''
         (alwaysThrows serverError) worldFresh)))
     \<noteq> [Num BASE_RETRY_DELAY_MS, Num (BASE_RETRY_DELAY_MS * 2),
         Num (BASE_RETRY_DELAY_MS * 4)]
   \<and> BASE_RETRY_DELAY_MS = 1000"
  by (simp add: isTransientError_def serverError_def executeWithRateLimiting_def
        executeLoop.simps tryBlock_def checkRateLimit_def cfgOff_def alwaysThrows_def
        isRateLimitError_def MAX_RETRY_ATTEMPTS_def BASE_RETRY_DELAY_MS_def prependEvents_def)

text \<open>
  C4. The claim is that the executor retries exactly the errors with status at least
  500, status 429, or status 403 and a quota message, and that for every terminal error
  the call is invoked once and a classified error of category \<open>GITHUB_API\<close> is
  surfaced without delay. The executor classifies and retries as claimed
  (\<open>isTransientError_fields\<close>, \<open>executeWithRateLimiting_retries_iff\<close>), and nothing follows
  the invocation that throws a terminal error (\<open>executeWithRateLimiting_terminal_error\<close>).
  But the error it then throws is built by \<open>createGithubApiError\<close>, which first logs
  the caught value as its context. For a caught value that \<open>JSON.stringify\<close> rejects,
  here a status-400 error object that refers to itself, the logger throws a
  \<open>TypeError\<close>, and that is what the executor surfaces: no standardized error, no
  category. (For a value that can be serialized the error is the classified one:
  \<open>executeWithRateLimiting_terminal_serializable\<close>.)
\<close>

theorem executeWithRateLimiting_unserializable_terminal_error:
  "\<not> isTransientError badRequestCircular
   \<and> executeWithRateLimiting cfgOn (fixedClock 1000) ''op''
         (alwaysThrows badRequestCircular) worldFresh
       = (Inl (typeError ''Converting circular structure to JSON''),
          [MutexAcquire, MutexRelease, ApiCall 0], worldFresh\<lparr>clockReads := 1\<rparr>)
   \<and> typeError ''Converting circular structure to JSON''
       = ApiError None (Some ''Converting circular structure to JSON'') None None"
proof -
  have n: "\<not> isTransientError badRequestCircular"
    by (simp add: badRequestCircular_def isTransientError_def isRateLimitError_def)
  have c: "checkRateLimit cfgOn (fixedClock 1000) worldFresh
             = (Inr (), [MutexAcquire, MutexRelease], worldFresh\<lparr>clockReads := 1\<rparr>)"
    by (simp add: checkRateLimit_def dateNow_def cfgOn_def worldFresh_def fixedClock_def)
  have e: "alwaysThrows badRequestCircular 0 = Inl badRequestCircular"
    by (simp add: alwaysThrows_def)
  have h: "handleGitHubApiError badRequestCircular ''op''
             = typeError ''Converting circular structure to JSON''"
    by (rule handleGitHubApiError_unserializable) (simp add: badRequestCircular_def)
  have c1: "fst (checkRateLimit cfgOn (fixedClock 1000) worldFresh) = Inr ()"
    by (simp add: c)
  show ?thesis
    using n executeWithRateLimiting_terminal_error
            [where apiCall = "alwaysThrows badRequestCircular" and operationName = "''op''",
             OF c1 e n]
    by (simp add: c h typeError_def)
qed

lemma executeWithRateLimiting_terminal_serializable:
  assumes "fst (checkRateLimit cfg clk w) = Inr ()" and "apiCall 0 = Inl error"
      and "\<not> isTransientError error" and "stringifyFailure error = None"
  shows "\<exists>e. executeWithRateLimiting cfg clk operationName apiCall w
               = (Inl (StdError e), fst (snd (checkRateLimit cfg clk w)) @ [ApiCall 0],
                  snd (snd (checkRateLimit cfg clk w)))
            \<and> errorCategory e = CATEGORY_GITHUB_API"
  using executeWithRateLimiting_terminal_error
          [where apiCall = apiCall and operationName = operationName, OF assms(1-3)]
        handleGitHubApiError_category [OF assms(4), of operationName]
  by auto

subsection \<open>Updates from response headers\<close>

text \<open>
  C5, as stated, fails: the update is guarded by the presence of the three headers only.
  A header that is present but does not parse is stored as \<open>NaN\<close>, and the state is
  replaced all the same.
\<close>

theorem updateRateLimitFromHeaders_unparsable_counterexample:
  "parseInt ''abc'' = NaN
   \<and> rateLimitInfo (snd (updateRateLimitFromHeaders headersUnparsable worldFresh))
       = \<lparr> remaining = NaN, resetTime = Num 1700000000000, limit = Num 5000 \<rparr>
   \<and> rateLimitInfo worldFresh
       = \<lparr> remaining = Num 5000, resetTime = Num 3601000, limit = Num 5000 \<rparr>"
  by (simp add: updateRateLimitFromHeaders_def safelyUpdateRateLimitInfo_def
        headersUnparsable_def worldFresh_def parseInt_examples)

text \<open>
  C5, amended. \<open>updateRateLimitFromHeaders\<close> replaces the whole quota state by the
  values \<open>parseInt\<close> reads from the three headers (the reset time multiplied by 1000;
  \<open>NaN\<close> for a value that does not parse) if and only if all three headers are present,
  and leaves the world unchanged otherwise. Hence after a non-empty sequence of updates
  with complete header triples the state consists of exactly the values of the last one.
\<close>

theorem updateRateLimitFromHeaders_replaces:
  "(hs ''x-ratelimit-remaining'' = Some r \<and> hs ''x-ratelimit-reset'' = Some t
      \<and> hs ''x-ratelimit-limit'' = Some l
      \<longrightarrow> snd (updateRateLimitFromHeaders hs w)
            = w\<lparr>rateLimitInfo := \<lparr> remaining = parseInt r,
                                   resetTime = jsMul (parseInt t) (Num 1000),
                                   limit = parseInt l \<rparr>\<rparr>)
   \<and> (hs ''x-ratelimit-remaining'' = None \<or> hs ''x-ratelimit-reset'' = None
      \<or> hs ''x-ratelimit-limit'' = None
      \<longrightarrow> updateRateLimitFromHeaders hs w = ([], w))
   \<and> (hss \<noteq> [] \<and> (\<forall>h \<in> set hss. completeTriple h)
      \<longrightarrow> (\<exists>r' t' l'. last hss ''x-ratelimit-remaining'' = Some r'
              \<and> last hss ''x-ratelimit-reset'' = Some t'
              \<and> last hss ''x-ratelimit-limit'' = Some l'
              \<and> rateLimitInfo (applyUpdates hss w)
                  = \<lparr> remaining = parseInt r',
                      resetTime = jsMul (parseInt t') (Num 1000),
                      limit = parseInt l' \<rparr>))"
proof -
  have seq: "\<exists>r' t' l'. last hss ''x-ratelimit-remaining'' = Some r'
              \<and> last hss ''x-ratelimit-reset'' = Some t'
              \<and> last hss ''x-ratelimit-limit'' = Some l'
              \<and> rateLimitInfo (applyUpdates hss w)
                  = \<lparr> remaining = parseInt r',
                      resetTime = jsMul (parseInt t') (Num 1000),
                      limit = parseInt l' \<rparr>"
    if ne: "hss \<noteq> []" and all: "\<forall>h \<in> set hss. completeTriple h"
  proof -
    from ne all have "completeTriple (last hss)" by simp
    then obtain r' t' l' where l: "last hss ''x-ratelimit-remaining'' = Some r'"
        "last hss ''x-ratelimit-reset'' = Some t'" "last hss ''x-ratelimit-limit'' = Some l'"
      by (auto simp: completeTriple_def)
    have "rateLimitInfo (applyUpdates hss w)
            = rateLimitInfo (snd (updateRateLimitFromHeaders (last hss) w))"
      by (rule applyUpdates_last [OF ne all])
    with l show ?thesis
      by (simp add: updateRateLimitFromHeaders_complete)
  qed
  show ?thesis
    using seq
    by (auto simp add: updateRateLimitFromHeaders_complete updateRateLimitFromHeaders_incomplete)
qed

theorem updateRateLimitFromHeaders_replaces_witness:
  "headersComplete ''x-ratelimit-remaining'' = Some ''4999''
   \<and> headersComplete ''x-ratelimit-reset'' = Some ''1700000000''
   \<and> headersComplete ''x-ratelimit-limit'' = Some ''5000''
   \<and> snd (updateRateLimitFromHeaders headersComplete worldFresh)
       = worldFresh\<lparr>rateLimitInfo := \<lparr> remaining = Num 4999,
                                        resetTime = Num 1700000000000,
                                        limit = Num 5000 \<rparr>\<rparr>
   \<and> headersPartial ''x-ratelimit-reset'' = None
   \<and> updateRateLimitFromHeaders headersPartial worldFresh = ([], worldFresh)
   \<and> [headersUnparsable, headersComplete] \<noteq> []
   \<and> completeTriple headersUnparsable \<and> completeTriple headersComplete
   \<and> rateLimitInfo (applyUpdates [headersUnparsable, headersComplete] worldFresh)
       = \<lparr> remaining = Num 4999, resetTime = Num 1700000000000, limit = Num 5000 \<rparr>"
  using updateRateLimitFromHeaders_replaces
          [of headersComplete "''4999''" "''1700000000''" "''5000''" worldFresh
              "[headersUnparsable, headersComplete]"]
        updateRateLimitFromHeaders_replaces
          [of headersPartial "''4999''" "''1700000000''" "''5000''" worldFresh
              "[headersUnparsable, headersComplete]"]
  by (simp add: headersComplete_def headersPartial_def headersUnparsable_def
        completeTriple_def parseInt_examples)

subsection \<open>The reactive wait of the rate limiter\<close>

text \<open>
  \<open>handleRateLimitExceeded\<close> computes its wait as the retry-after value times 1000
  when one is supplied (a non-empty string, which is how the code tests it), else as
  \<open>resetTime - now + resetBufferMs\<close> when the reset time is greater than the clock
  reading, else as \<open>resetBufferMs\<close>. If the wait is greater than 120000 it throws and
  sets no timer, and what it throws is a standardized error of category \<open>GITHUB_API\<close>
  whenever the reset time of the state is a valid time value; otherwise it sets exactly
  one timer, of the computed duration, and returns.
\<close>

lemma handleRateLimitExceeded_wait:
  "(let wt = spec_exceededWait cfg retryAfter (resetTime (rateLimitInfo w))
               (clk (clockReads w)) (clk (Suc (clockReads w)));
        res = handleRateLimitExceeded cfg clk retryAfter w;
        timers = filter isTimer (fst (snd res))
    in if jsGt wt (Num 120000)
       then (\<exists>x. fst res = Inl x) \<and> timers = []
            \<and> (validTimeValue (resetTime (rateLimitInfo w))
                 \<longrightarrow> (\<exists>e. fst res = Inl (StdError e)
                          \<and> errorCategory e = CATEGORY_GITHUB_API))
       else fst res = Inr () \<and> timers = [SetTimeout ExceededWait wt])"
  using rateLimitFailure_category
          [of "resetTime (rateLimitInfo w)"
              "''GitHub API rate limit exceeded, retry not possible''"]
  by (auto simp add: handleRateLimitExceeded_def resetBasedWait_def spec_exceededWait_def
        dateNow_def Let_def split: option.splits list.splits)

lemma handleRateLimitExceeded_wait_examples:
  "fst (handleRateLimitExceeded cfgOn (fixedClock 1000) (Some ''5'') worldFresh) = Inr ()
   \<and> filter isTimer
       (fst (snd (handleRateLimitExceeded cfgOn (fixedClock 1000) (Some ''5'') worldFresh)))
       = [SetTimeout ExceededWait (Num 5000)]
   \<and> validTimeValue (resetTime (rateLimitInfo worldFresh))
   \<and> fst (handleRateLimitExceeded cfgOn (fixedClock 1000) (Some ''500'') worldFresh)
       = Inl (StdError (githubApiErrorObject
               ''GitHub API rate limit exceeded, retry not possible''))
   \<and> filter isTimer
       (fst (snd (handleRateLimitExceeded cfgOn (fixedClock 1000) (Some ''500'') worldFresh)))
       = []"
  using handleRateLimitExceeded_wait [of cfgOn "Some ''5''" worldFresh "fixedClock 1000"]
        handleRateLimitExceeded_wait [of cfgOn "Some ''500''" worldFresh "fixedClock 1000"]
  by (simp add: spec_exceededWait_def parseInt_examples Let_def validTimeValue_def
        worldFresh_def handleRateLimitExceeded_def rateLimitFailure_def
        createGithubApiError_def)

text \<open>
  C6. The claim is that \<open>handleRateLimitExceeded\<close> fails fast with an error of category
  \<open>GITHUB_API\<close> when the computed wait exceeds 120000 ms. The code evaluates the context
  of that error before it creates it, and the context holds
  \<open>new Date(resetTime).toISOString()\<close>, which throws a \<open>RangeError\<close> on a reset time that
  is \<open>NaN\<close>. A response whose reset header does not parse (\<open>soon\<close>) leaves the state
  with \<open>resetTime = NaN\<close>; with \<open>retry-after: 500\<close> the wait is 500000 ms, above the
  ceiling, and \<open>handleRateLimitExceeded\<close> throws the \<open>RangeError\<close>, which is no
  standardized error and has no category. (The computation of the wait and the rest of
  the claim hold, and this part too when the reset time is a valid time value:
  \<open>handleRateLimitExceeded_wait\<close>.)
\<close>

theorem handleRateLimitExceeded_fail_fast_RangeError:
  "rateLimitInfo (snd (updateRateLimitFromHeaders headersUnparsableReset worldFresh))
     = rateLimitInfo worldNaNReset
   \<and> spec_exceededWait cfgOn (Some ''500'') (resetTime (rateLimitInfo worldNaNReset))
         1000 1000 = Num 500000
   \<and> jsGt (Num 500000) (Num 120000)
   \<and> handleRateLimitExceeded cfgOn (fixedClock 1000) (Some ''500'') worldNaNReset
       = (Inl rangeError, [MutexAcquire, MutexRelease], worldNaNReset)
   \<and> rangeError = ApiError None (Some ''Invalid time value'') None None"
  by (simp add: updateRateLimitFromHeaders_def safelyUpdateRateLimitInfo_def
        headersUnparsableReset_def worldFresh_def worldNaNReset_def parseInt_examples
        spec_exceededWait_def handleRateLimitExceeded_def rateLimitFailure_def
        rangeError_def)

text \<open>
  C10, as stated, fails at the empty string: \<open>parseInt\<close> of it is \<open>NaN\<close>, but the
  empty string is falsy, so the reset-based wait is taken; on the limiter's initial
  state (reset an hour away) that wait exceeds the ceiling and the call fails fast.
\<close>

theorem handleRateLimitExceeded_empty_retryAfter_counterexample:
  "parseInt '''' = NaN
   \<and> fst (handleRateLimitExceeded cfgOn (fixedClock 1000) (Some '''') worldFresh)
       = Inl (StdError (githubApiErrorObject
               ''GitHub API rate limit exceeded, retry not possible''))"
  by (simp add: parseInt_examples handleRateLimitExceeded_def resetBasedWait_def dateNow_def
        cfgOn_def worldFresh_def fixedClock_def rateLimitFailure_def createGithubApiError_def)

text \<open>
  C10, amended. For every non-empty retry-after string that does not parse to a number,
  \<open>handleRateLimitExceeded\<close> neither fails fast nor falls back to the reset time or the
  buffer: the comparison of \<open>NaN\<close> with the ceiling is false, the \<open>NaN\<close> is handed to the
  timer as its duration, the clock is not read, and the call returns.
\<close>

theorem handleRateLimitExceeded_unparsable_retryAfter:
  "s \<noteq> [] \<and> parseInt s = NaN \<longrightarrow>
     handleRateLimitExceeded cfg clk (Some s) w
       = (Inr (), [MutexAcquire, SetTimeout ExceededWait NaN, MutexRelease], w)"
  by (simp add: handleRateLimitExceeded_def)

theorem handleRateLimitExceeded_unparsable_retryAfter_witness:
  "''soon'' \<noteq> [] \<and> parseInt ''soon'' = NaN
   \<and> handleRateLimitExceeded cfgOn (fixedClock 1000) (Some ''soon'') worldFresh
       = (Inr (), [MutexAcquire, SetTimeout ExceededWait NaN, MutexRelease], worldFresh)"
  using handleRateLimitExceeded_unparsable_retryAfter
          [of "''soon''" cfgOn "fixedClock 1000" worldFresh]
  by (simp add: parseInt_examples)

subsection \<open>The quota state is written by the header update only\<close>

text \<open>
  C9. Neither \<open>checkRateLimit\<close> nor \<open>handleRateLimitExceeded\<close> changes the quota state
  (\<open>remaining\<close>, \<open>resetTime\<close>, \<open>limit\<close>), whether they return at once, after their wait,
  or throw. Across a whole call of the executor the state changes only through the
  header update of a successful response: it is the state before the call unless the
  call returned a response with headers, and then it is what
  \<open>updateRateLimitFromHeaders\<close> makes of those headers (once that update has run).
\<close>

theorem limiter_waits_preserve_state:
  "rateLimitInfo (snd (snd (checkRateLimit cfg clk w))) = rateLimitInfo w
   \<and> rateLimitInfo (snd (snd (handleRateLimitExceeded cfg clk retryAfter w))) = rateLimitInfo w
   \<and> rateLimitInfo (snd (snd (executeWithRateLimiting cfg clk operationName apiCall w)))
       = infoAfter (fst (executeWithRateLimiting cfg clk operationName apiCall w)) w"
  by (simp add: checkRateLimit_info handleRateLimitExceeded_info executeWithRateLimiting_def
        executeLoop_info [OF refl])

subsection \<open>The cancellable timeout\<close>

text \<open>
  C7. For every duration \<open>d\<close> and every later sequence of events: if the timer of
  \<open>createSafeTimeout d\<close> elapses before any cancel, \<open>resolve\<close> is called exactly once;
  if \<open>cancel\<close> is called first, \<open>resolve\<close> is never called. \<open>cancel\<close> is idempotent, and
  a cancel after the timer has fired leaves the promise and the (spent) timer as they
  are, so that the resolution count of any continuation is the same with and without it.
\<close>

theorem createSafeTimeout_resolution:
  "resolveCalls (timeoutRun (Elapse # es) (createSafeTimeout d)) = 1
   \<and> resolveCalls (timeoutRun (Cancel # es) (createSafeTimeout d)) = 0
   \<and> cancel (cancel t) = cancel t
   \<and> resolveCalls (cancel (timerElapses (createSafeTimeout d)))
       = resolveCalls (timerElapses (createSafeTimeout d))
   \<and> timerPending (cancel (timerElapses (createSafeTimeout d)))
       = timerPending (timerElapses (createSafeTimeout d))
   \<and> resolveCalls (timeoutRun (Elapse # Cancel # es) (createSafeTimeout d))
       = resolveCalls (timeoutRun (Elapse # es) (createSafeTimeout d))"
proof -
  have a: "resolveCalls (timeoutRun (Elapse # es') (createSafeTimeout d)) = 1" for es'
    using spent_run [of "timerElapses (createSafeTimeout d)" es']
    by (simp add: timerElapses_def timerCallback_def createSafeTimeout_def)
  have b: "resolveCalls (timeoutRun (Cancel # es) (createSafeTimeout d)) = 0"
    using cancelled_run [of "cancel (createSafeTimeout d)" es]
    by (simp add: cancel_def createSafeTimeout_def)
  have c: "cancel (cancel t) = cancel t"
    by (simp add: cancel_def)
  have d: "resolveCalls (cancel (timerElapses (createSafeTimeout d)))
             = resolveCalls (timerElapses (createSafeTimeout d))
     \<and> timerPending (cancel (timerElapses (createSafeTimeout d)))
         = timerPending (timerElapses (createSafeTimeout d))"
    by (simp add: cancel_def timerElapses_def timerCallback_def createSafeTimeout_def)
  show ?thesis
    using a [of es] a [of "Cancel # es"] b c d by simp
qed

subsection \<open>The mutex\<close>

text \<open>
  C8. The claim is that of two overlapping \<open>acquire\<close> calls the second does not proceed
  before the first has called its release function. \<open>acquire\<close> replaces \<open>_locking\<close> only
  after its \<open>await\<close>, so two calls that reach the \<open>await\<close> while the same promise is
  stored both continue once that promise is resolved. On a new mutex, two calls made in
  the same turn both enter their critical section with no release in between; and when
  task 0 holds the mutex while tasks 1 and 2 call \<open>acquire\<close>, the release by task 0 lets
  both of them in. (A single waiter is held back until the release, \<open>AsyncMutex_handover\<close>,
  and each guarded operation of the limiter does release exactly once on every path:
  \<open>checkRateLimit_releasesOnce\<close>, \<open>handleRateLimitExceeded_releasesOnce\<close>,
  \<open>safelyUpdateRateLimitInfo_releasesOnce\<close>.)
\<close>

theorem AsyncMutex_overlapping_acquires:
  "map_option inCriticalSection
     (mutexRun [CallAcquire 0, CallAcquire 1,
                RunMicrotask, RunMicrotask, RunMicrotask, RunMicrotask] newAsyncMutex)
     = Some [0, 1]
   \<and> map_option inCriticalSection
       (mutexRun [CallAcquire 0, RunMicrotask, RunMicrotask] newAsyncMutex) = Some [0]
   \<and> map_option inCriticalSection
       (mutexRun [CallAcquire 0, RunMicrotask, RunMicrotask,
                  CallAcquire 1, CallAcquire 2, Release 0,
                  RunMicrotask, RunMicrotask, RunMicrotask, RunMicrotask] newAsyncMutex)
       = Some [1, 2]"
  by (simp add: newAsyncMutex_def callAcquire_def runMicrotask_def releaseFn_def
        inCriticalSection_def)

end
